theory Spec2Isabelle
  imports Complex_Main "HOL-Library.Word" "HOL-Library.Sublist"
begin

section \<open>JavaScript strings and numbers\<close>

text \<open>
  A JavaScript string is a sequence of 16-bit code units, and \<open>.length\<close> counts code
  units. The ASCII part of a literal is written with \<open>js\<close>; the Chinese text of the
  source's literals is given by its code units. Integers are rendered by template
  literals in decimal.
\<close>

type_synonym jschar = "16 word"
type_synonym jsstring = "jschar list"

definition js :: "string \<Rightarrow> jsstring" where
  "js s = map (\<lambda>c. of_nat (of_char c)) s"

definition nl :: jsstring where
  "nl = [0x0A]"

fun num :: "nat \<Rightarrow> jsstring" where
  "num n = (if n < 10 then [of_nat (48 + n)]
            else num (n div 10) @ [of_nat (48 + n mod 10)])"

declare num.simps [simp del]

definition num_int :: "int \<Rightarrow> jsstring" where
  "num_int i = (if i < 0 then 0x2D # num (nat (- i)) else num (nat i))"

text \<open>\<open>Math.round\<close>: the nearest integer, a tie going up. The quotient is taken exactly.\<close>

definition Math_round :: "rat \<Rightarrow> int" where
  "Math_round x = \<lfloor>x + 1 / 2\<rfloor>"

section \<open>parser.worker.js\<close>

subsection \<open>escapeHtml\<close>

primrec replace_all :: "jschar \<Rightarrow> jsstring \<Rightarrow> jsstring \<Rightarrow> jsstring" where
  "replace_all c r [] = []"
| "replace_all c r (x # xs) = (if x = c then r else [x]) @ replace_all c r xs"

definition escapeHtml :: "jsstring \<Rightarrow> jsstring" where
  \<open>escapeHtml unsafe =
     (if unsafe = [] then []
      else replace_all 0x27 (js ''&#039;'')
            (replace_all 0x22 (js ''&quot;'')
              (replace_all 0x3E (js ''&gt;'')
                (replace_all 0x3C (js ''&lt;'')
                  (replace_all 0x26 (js ''&amp;'') unsafe)))))\<close>

subsection \<open>The parsing libraries and their documents\<close>

text \<open>
  \<open>XLSX\<close> and \<open>PptxParser\<close> are loaded from a CDN and are parameters here. A call
  either returns or throws; a thrown error is represented by the text of its
  \<open>message\<close>. \<open>Sheets\<close> is a dictionary, so \<open>workbook.Sheets[sheetName]\<close> may be
  \<open>undefined\<close> (\<open>None\<close>), which is passed on to \<open>sheet_to_html\<close> as it is.
\<close>

type_synonym exn = jsstring

record 'w workbook =
  SheetNames :: "jsstring list"
  Sheets :: "jsstring \<rightharpoonup> 'w"

record text_run =
  level :: nat
  content :: jsstring

record slide =
  slide_text :: "text_run list option"

record presentation =
  slides :: "slide list"

record ('b, 'w) libs =
  XLSX_read :: "'b \<Rightarrow> exn + 'w workbook"
  sheet_to_html :: "'w option \<Rightarrow> exn + jsstring"
  PptxParser_parse :: "'b \<Rightarrow> exn + presentation"

subsection \<open>Messages posted by the worker\<close>

datatype worker_msg =
    Progress int
  | XlsxResult jsstring
  | PptxResult jsstring
  | ErrorMsg jsstring

subsection \<open>parseXlsx\<close>

definition xlsx_header :: "nat \<Rightarrow> jsstring" where
  \<open>xlsx_header n =
     js ''<div class="xlsx-content">'' @
     js ''<h3>Excel'' @ [0x6587, 0x6863] @ js '': '' @ num n @
     js '' '' @ [0x4E2A, 0x5DE5, 0x4F5C, 0x8868] @ js ''</h3>''\<close>

definition worksheet_block :: "nat \<Rightarrow> jsstring \<Rightarrow> jsstring \<Rightarrow> jsstring" where
  \<open>worksheet_block i sheetName html =
     nl @ js ''                <div class="worksheet-container">'' @
     nl @ js ''                    <h4>'' @ [0x5DE5, 0x4F5C, 0x8868] @ js '' '' @
          num (i + 1) @ js '': '' @ sheetName @ js ''</h4>'' @
     nl @ js ''                    <div class="table-wrapper">'' @ html @ js ''</div>'' @
     nl @ js ''                </div>'' @
     nl @ js ''                <hr>'' @
     nl @ js ''            ''\<close>

definition sheet_progress :: "nat \<Rightarrow> nat \<Rightarrow> int" where
  "sheet_progress i totalSheets = 20 + Math_round ((of_nat i / of_nat totalSheets) * 60)"

text \<open>
  The \<open>for\<close> loop of \<open>parseXlsx\<close>, from index \<open>i\<close>, with the HTML accumulated and the
  messages posted so far. The 10 ms pause after each worksheet posts nothing.
\<close>

function parseXlsx_loop ::
  "('b, 'w) libs \<Rightarrow> 'w workbook \<Rightarrow> nat \<Rightarrow> jsstring \<Rightarrow> worker_msg list
     \<Rightarrow> worker_msg list \<times> (exn + jsstring)" where
  "parseXlsx_loop L wb i htmlContent posted =
     (if i < length (SheetNames wb) then
        (case sheet_to_html L (Sheets wb (SheetNames wb ! i)) of
           Inl e \<Rightarrow> (posted @ [Progress (sheet_progress i (length (SheetNames wb)))], Inl e)
         | Inr html \<Rightarrow>
             parseXlsx_loop L wb (Suc i)
               (htmlContent @ worksheet_block i (SheetNames wb ! i) html)
               (posted @ [Progress (sheet_progress i (length (SheetNames wb)))]))
      else (posted, Inr htmlContent))"
  by pat_completeness auto
termination
  by (relation "measure (\<lambda>(L, wb, i, h, p). length (SheetNames wb) - i)") auto

declare parseXlsx_loop.simps [simp del]

text \<open>
  A worker function returns the messages it posted and, when it threw, the message of
  the error.
\<close>

definition Excel_failed :: "exn \<Rightarrow> exn" where
  "Excel_failed message = js ''Excel'' @ [0x89E3, 0x6790, 0x5931, 0x8D25] @ js '': '' @ message"

definition parseXlsx :: "('b, 'w) libs \<Rightarrow> 'b \<Rightarrow> nat \<Rightarrow> worker_msg list \<times> exn option" where
  \<open>parseXlsx L arrayBuffer fileSize =
     (case XLSX_read L arrayBuffer of
        Inl e \<Rightarrow> ([Progress 10], Some (Excel_failed e))
      | Inr workbook \<Rightarrow>
          (case parseXlsx_loop L workbook 0 (xlsx_header (length (SheetNames workbook)))
                  [Progress 10, Progress 20] of
             (posted, Inl e) \<Rightarrow> (posted, Some (Excel_failed e))
           | (posted, Inr htmlContent) \<Rightarrow>
               (posted @ [Progress 100, XlsxResult (htmlContent @ js ''</div>'')], None)))\<close>

subsection \<open>parsePptx\<close>

definition pptx_header :: "nat \<Rightarrow> jsstring" where
  \<open>pptx_header n =
     js ''<div class="pptx-content">'' @
     js ''<h3>PowerPoint'' @ [0x6587, 0x6863] @ js '': '' @ num n @
     js '' '' @ [0x5F20, 0x5E7B, 0x706F, 0x7247] @ js ''</h3>''\<close>

definition text_tag :: "nat \<Rightarrow> jsstring" where
  "text_tag l = (if l = 0 then js ''h5'' else if l = 1 then js ''h6'' else js ''p'')"

definition text_html :: "text_run \<Rightarrow> jsstring" where
  \<open>text_html t =
     js ''<'' @ text_tag (level t) @ js '' class="slide-text level-'' @ num (level t) @
     js ''">'' @ escapeHtml (content t) @ js ''</'' @ text_tag (level t) @ js ''>''\<close>

definition no_content :: jsstring where
  \<open>no_content =
     js ''<p class="no-content">'' @
     [0x6B64, 0x5E7B, 0x706F, 0x7247, 0x6CA1, 0x6709, 0x53EF, 0x63D0, 0x53D6, 0x7684,
      0x6587, 0x672C, 0x5185, 0x5BB9] @ js ''</p>''\<close>

text \<open>What the callback of \<open>presentation.slides.forEach\<close> appends for one slide.\<close>

definition slide_html :: "nat \<Rightarrow> slide \<Rightarrow> jsstring" where
  \<open>slide_html index s =
     js ''<div class="slide slide-'' @ num (index + 1) @ js ''">'' @
     js ''<h4>'' @ [0x5E7B, 0x706F, 0x7247] @ js '' '' @ num (index + 1) @ js ''</h4>'' @
     (case slide_text s of
        None \<Rightarrow> no_content
      | Some ts \<Rightarrow>
          if length ts > 0
          then js ''<div class="slide-content">'' @
               foldl (\<lambda>h t. h @ text_html t) [] ts @ js ''</div>''
          else no_content) @
     js ''</div><hr>''\<close>

definition PowerPoint_failed :: "exn \<Rightarrow> exn" where
  "PowerPoint_failed message =
     js ''PowerPoint'' @ [0x89E3, 0x6790, 0x5931, 0x8D25] @ js '': '' @ message"

definition parsePptx :: "('b, 'w) libs \<Rightarrow> 'b \<Rightarrow> nat \<Rightarrow> worker_msg list \<times> exn option" where
  \<open>parsePptx L arrayBuffer fileSize =
     (case PptxParser_parse L arrayBuffer of
        Inl e \<Rightarrow> ([Progress 10, Progress 30], Some (PowerPoint_failed e))
      | Inr p \<Rightarrow>
          ([Progress 10, Progress 30, Progress 60, Progress 100,
            PptxResult
              (foldl (\<lambda>h (index, s). h @ slide_html index s)
                 (pptx_header (length (slides p))) (enumerate 0 (slides p)) @
               js ''</div>'')],
           None))\<close>

subsection \<open>self.onmessage\<close>

definition unsupported_type :: "jsstring \<Rightarrow> jsstring" where
  "unsupported_type t =
     [0x4E0D, 0x652F, 0x6301, 0x7684, 0x89E3, 0x6790, 0x7C7B, 0x578B] @ js '': '' @ t"

definition unknown_error :: jsstring where
  "unknown_error =
     [0x89E3, 0x6790, 0x8FC7, 0x7A0B, 0x4E2D, 0x53D1, 0x751F, 0x672A, 0x77E5, 0x9519, 0x8BEF]"

definition self_onmessage ::
  "('b, 'w) libs \<Rightarrow> jsstring \<Rightarrow> 'b \<Rightarrow> nat \<Rightarrow> worker_msg list" where
  "self_onmessage L type arrayBuffer fileSize =
     (case (if type = js ''parse-xlsx'' then parseXlsx L arrayBuffer fileSize
            else if type = js ''parse-pptx'' then parsePptx L arrayBuffer fileSize
            else ([], Some (unsupported_type type))) of
        (posted, None) \<Rightarrow> posted
      | (posted, Some m) \<Rightarrow> posted @ [ErrorMsg (if m \<noteq> [] then m else unknown_error)])"

section \<open>optimized-parsing.js\<close>

subsection \<open>What a conversion request does to the page\<close>

text \<open>
  A request is observed as the sequence of calls it makes to \<open>updateProgressIndicator\<close>,
  \<open>renderParsedContent\<close> and \<open>handleParsingError\<close>, and of the suspensions of the
  main thread at \<open>requestIdleCallback\<close>.
\<close>

datatype effect =
    UpdateProgress int
  | RenderContent jsstring
  | ParsingError jsstring
  | IdleYield

text \<open>
  The browser: whether \<open>window.Worker\<close> exists and \<open>new Worker\<close> returns, whether
  the \<open>importScripts\<close> call at the head of the worker script throws (the error is
  then uncaught and reaches \<open>worker.onerror\<close>), the libraries, and the wording of the
  engine's \<open>ReferenceError\<close> for an identifier that is bound nowhere.
\<close>

record ('b, 'w) browser =
  Worker_available :: bool
  importScripts :: "exn option"
  lib :: "('b, 'w) libs"
  ReferenceError_message :: "jsstring \<Rightarrow> jsstring"

subsection \<open>createParserWorker: the handlers\<close>

fun worker_onmessage :: "worker_msg \<Rightarrow> effect list" where
  "worker_onmessage (ErrorMsg error) = (if error \<noteq> [] then [ParsingError error] else [])"
| "worker_onmessage (XlsxResult html) = [RenderContent html]"
| "worker_onmessage (PptxResult html) = [RenderContent html]"
| "worker_onmessage (Progress progress) = [UpdateProgress progress]"

definition parse_failed :: jsstring where
  "parse_failed = [0x89E3, 0x6790, 0x5931, 0x8D25] @ js '': ''"

text \<open>\<open>worker.onerror\<close> reports the failure and then terminates the worker.\<close>

definition worker_onerror :: "jsstring \<Rightarrow> effect list" where
  "worker_onerror message = [ParsingError (parse_failed @ message)]"

subsection \<open>parseXlsxInChunks\<close>

function parseXlsxInChunks_loop ::
  "('b, 'w) libs \<Rightarrow> (int \<Rightarrow> effect list) \<Rightarrow> 'w workbook \<Rightarrow> nat \<Rightarrow> jsstring \<Rightarrow> effect list
     \<Rightarrow> effect list \<times> (exn + jsstring)" where
  "parseXlsxInChunks_loop L progressCallback wb i htmlContent done =
     (if i < length (SheetNames wb) then
        (case sheet_to_html L (Sheets wb (SheetNames wb ! i)) of
           Inl e \<Rightarrow>
             (done @ progressCallback (sheet_progress i (length (SheetNames wb))) @ [IdleYield],
              Inl e)
         | Inr html \<Rightarrow>
             parseXlsxInChunks_loop L progressCallback wb (Suc i)
               (htmlContent @ worksheet_block i (SheetNames wb ! i) html)
               (done @ progressCallback (sheet_progress i (length (SheetNames wb))) @ [IdleYield]))
      else (done, Inr htmlContent))"
  by pat_completeness auto
termination
  by (relation "measure (\<lambda>(L, cb, wb, i, h, d). length (SheetNames wb) - i)") auto

declare parseXlsxInChunks_loop.simps [simp del]

definition parseXlsxInChunks ::
  "('b, 'w) libs \<Rightarrow> 'b \<Rightarrow> (int \<Rightarrow> effect list) \<Rightarrow> effect list \<times> (exn + jsstring)" where
  \<open>parseXlsxInChunks L arrayBuffer progressCallback =
     (case XLSX_read L arrayBuffer of
        Inl e \<Rightarrow> (progressCallback 10, Inl e)
      | Inr workbook \<Rightarrow>
          (case parseXlsxInChunks_loop L progressCallback workbook 0
                  (xlsx_header (length (SheetNames workbook)))
                  (progressCallback 10 @ progressCallback 20) of
             (done, Inl e) \<Rightarrow> (done, Inl e)
           | (done, Inr htmlContent) \<Rightarrow>
               (done @ progressCallback 100, Inr (htmlContent @ js ''</div>''))))\<close>

subsection \<open>parseLargeFile\<close>

definition unsupported_docType :: "jsstring \<Rightarrow> jsstring" where
  "unsupported_docType t =
     [0x4E0D, 0x652F, 0x6301, 0x7684, 0x6587, 0x6863, 0x7C7B, 0x578B] @ js '': '' @ t"

text \<open>
  With a worker, the request is posted to it and the handlers of \<open>createParserWorker\<close>
  act on what comes back. Without one, the \<open>switch\<close> on \<open>docType\<close> runs on the main
  thread inside \<open>try\<close>. Its \<open>pptx\<close> case calls \<open>parsePptxInChunks\<close>, an identifier
  that neither source file binds: evaluating it throws a \<open>ReferenceError\<close> before
  anything is called.
\<close>

definition parseLargeFile ::
  "('b, 'w) browser \<Rightarrow> 'b \<Rightarrow> jsstring \<Rightarrow> nat \<Rightarrow> effect list" where
  "parseLargeFile B arrayBuffer docType fileSize =
     (if Worker_available B then
        (case importScripts B of
           Some message \<Rightarrow> worker_onerror message
         | None \<Rightarrow>
             concat (map worker_onmessage
               (self_onmessage (lib B) (js ''parse-'' @ docType) arrayBuffer fileSize)))
      else
        (case (if docType = js ''xlsx''
               then parseXlsxInChunks (lib B) arrayBuffer (\<lambda>progress. [UpdateProgress progress])
               else if docType = js ''pptx''
               then ([], Inl (ReferenceError_message B (js ''parsePptxInChunks'')))
               else ([], Inl (unsupported_docType docType))) of
           (done, Inr v) \<Rightarrow> done @ [RenderContent v]
         | (done, Inl message) \<Rightarrow> done @ [ParsingError message]))"

subsection \<open>updateProgressIndicator\<close>

text \<open>
  The two elements that \<open>document.querySelector\<close> looks up: the \<open>style.width\<close> of the
  first \<open>.progress-bar\<close> and the \<open>textContent\<close> of the first \<open>.progress-text\<close>,
  \<open>None\<close> when the page has no such element.
\<close>

record indicator =
  progressBar :: "jsstring option"
  progressText :: "jsstring option"

definition parsing_label :: jsstring where
  "parsing_label = [0x6B63, 0x5728, 0x89E3, 0x6790] @ js '': ''"

text \<open>
  An assignment to \<open>style.width\<close> of a value that is no valid width is dropped, and
  the style keeps the width it had. Of the values that \<open>updateProgressIndicator\<close>
  writes, a percentage with a minus sign is no valid width.
\<close>

definition updateProgressIndicator :: "int \<Rightarrow> indicator \<Rightarrow> indicator" where
  "updateProgressIndicator percent d =
     (case (progressBar d, progressText d) of
        (Some w, Some t) \<Rightarrow>
          d\<lparr>progressBar := Some (if percent < 0 then w else num_int percent @ js ''%''),
            progressText := Some (parsing_label @ num_int percent @ js ''%'')\<rparr>
      | _ \<Rightarrow> d)"

text \<open>The indicator that \<open>parseLargeFile\<close> writes into the preview before it starts.\<close>

definition initial_indicator :: indicator where
  "initial_indicator =
     \<lparr>progressBar = Some (js ''0%''),
      progressText = Some ([0x51C6, 0x5907, 0x89E3, 0x6790] @ js ''...'')\<rparr>"

subsection \<open>handleParsingError\<close>

definition handleParsingError :: "jsstring \<Rightarrow> jsstring" where
  \<open>handleParsingError message =
     js ''<div class="error-message">'' @
     nl @ js ''        <p>'' @
       [0x89E3, 0x6790, 0x6587, 0x6863, 0x65F6, 0x53D1, 0x751F, 0x9519, 0x8BEF] @ js ''</p>'' @
     nl @ js ''        <p>'' @ [0x9519, 0x8BEF] @ js '': '' @ message @ js ''</p>'' @
     nl @ js ''        <p>'' @
       [0x5EFA, 0x8BAE, 0x5C1D, 0x8BD5, 0x4E0B, 0x8F7D, 0x6587, 0x6863, 0x67E5, 0x770B] @
       js ''</p>'' @
     nl @ js ''    </div>''\<close>

subsection \<open>renderParsedContent and the virtual scroller\<close>

text \<open>
  The layout engine: the element children of a \<open>div\<close> whose \<open>innerHTML\<close> is the given
  HTML, its \<open>offsetHeight\<close>, and the \<open>clientHeight\<close> of the preview container.
\<close>

record 'n layout =
  children :: "jsstring \<Rightarrow> 'n list"
  offsetHeight :: "jsstring \<Rightarrow> int"
  clientHeight :: int

text \<open>
  The state of the scroller: the height of \<open>.virtual-placeholder\<close>, the variable
  \<open>currentStart\<close>, the children of \<open>.scroll-container\<close> and its \<open>translateY\<close>.
\<close>

record 'n scroller =
  placeholder_height :: int
  currentStart :: int
  scroll_container :: "'n list"
  translateY :: "int option"

definition buffer :: rat where
  "buffer = 200"

text \<open>The loop that clones \<open>allElements[i]\<close> into the fragment.\<close>

function clone_range :: "'n list \<Rightarrow> int \<Rightarrow> int \<Rightarrow> 'n list \<Rightarrow> 'n list" where
  "clone_range allElements i endIndex fragment =
     (if i < endIndex
      then clone_range allElements (i + 1) endIndex (fragment @ [allElements ! nat i])
      else fragment)"
  by pat_completeness auto
termination
  by (relation "measure (\<lambda>(a, i, e, f). nat (e - i))") auto

declare clone_range.simps [simp del]

definition visible_start :: "rat \<Rightarrow> int" where
  "visible_start scrollTop = max 0 \<lfloor>(scrollTop - buffer) / 10\<rfloor>"

definition visible_end :: "int \<Rightarrow> rat \<Rightarrow> int" where
  "visible_end viewportHeight scrollTop = \<lceil>(scrollTop + of_int viewportHeight + buffer) / 10\<rceil>"

text \<open>One call of \<open>renderVisibleContent\<close>, at the scroller's current \<open>scrollTop\<close>.\<close>

definition renderVisibleContent :: "'n list \<Rightarrow> int \<Rightarrow> rat \<Rightarrow> 'n scroller \<Rightarrow> 'n scroller" where
  "renderVisibleContent allElements viewportHeight scrollTop S =
     (if visible_start scrollTop \<noteq> currentStart S then
        S\<lparr>currentStart := visible_start scrollTop,
          scroll_container :=
            clone_range allElements
              (min (visible_start scrollTop) (int (length allElements)))
              (min (visible_end viewportHeight scrollTop) (int (length allElements))) [],
          translateY := Some (visible_start scrollTop * 10)\<rparr>
      else S)"

text \<open>
  \<open>renderVisibleContent\<close> asks for itself again at every animation frame. The state
  after finitely many further frames, given the \<open>scrollTop\<close> each of them read:
\<close>

definition frames :: "'n list \<Rightarrow> int \<Rightarrow> rat list \<Rightarrow> 'n scroller \<Rightarrow> 'n scroller" where
  "frames allElements viewportHeight scrollTops S =
     foldl (\<lambda>S scrollTop. renderVisibleContent allElements viewportHeight scrollTop S)
       S scrollTops"

text \<open>
  \<open>enableVirtualScrolling\<close> up to and including its first call of
  \<open>renderVisibleContent\<close>; the new scroller's \<open>scrollTop\<close> is 0.
\<close>

definition enableVirtualScrolling :: "'n layout \<Rightarrow> jsstring \<Rightarrow> 'n scroller" where
  "enableVirtualScrolling D html =
     renderVisibleContent (children D html) (clientHeight D) 0
       \<lparr>placeholder_height = offsetHeight D html, currentStart = 0,
        scroll_container = [], translateY = None\<rparr>"

text \<open>
  Up to the threshold the HTML becomes the \<open>innerHTML\<close> of the preview as it is
  (and \<open>lazyLoadImages\<close> is attached to it); above it the scroller takes over.
\<close>

datatype 'n preview = Plain jsstring | Virtual "'n scroller"

definition renderParsedContent :: "'n layout \<Rightarrow> jsstring \<Rightarrow> 'n preview" where
  "renderParsedContent D html =
     (if length html > 500000 then Virtual (enableVirtualScrolling D html) else Plain html)"

section \<open>Observations on a request\<close>

fun is_result :: "effect \<Rightarrow> bool" where
  "is_result (RenderContent h) = True"
| "is_result e = False"

fun is_error :: "effect \<Rightarrow> bool" where
  "is_error (ParsingError m) = True"
| "is_error e = False"

definition is_outcome :: "effect \<Rightarrow> bool" where
  "is_outcome e = (is_result e \<or> is_error e)"

fun progress_of :: "effect list \<Rightarrow> int list" where
  "progress_of [] = []"
| "progress_of (UpdateProgress p # es) = p # progress_of es"
| "progress_of (e # es) = progress_of es"

definition progress_before_outcome :: "effect list \<Rightarrow> int list" where
  "progress_before_outcome tr = progress_of (takeWhile (\<lambda>e. \<not> is_outcome e) tr)"

text \<open>The progress values of a run of the loop: sorted, between 20 and 80.\<close>

definition sheet_values :: "int list \<Rightarrow> bool" where
  "sheet_values ps = (sorted ps \<and> list_all (\<lambda>p. 20 \<le> p \<and> p \<le> 80) ps)"

text \<open>A worker's messages: progress values, then one result or one non-empty error.\<close>

fun final_msg :: "worker_msg \<Rightarrow> bool" where
  "final_msg (Progress p) = False"
| "final_msg (ErrorMsg m) = (m \<noteq> [])"
| "final_msg m = True"

fun result_msg :: "worker_msg \<Rightarrow> bool" where
  "result_msg (XlsxResult h) = True"
| "result_msg (PptxResult h) = True"
| "result_msg m = False"

definition progress_run :: "int list \<Rightarrow> bool \<Rightarrow> bool" where
  "progress_run ps ok = (sorted ps \<and> (ok \<longrightarrow> ps \<noteq> [] \<and> last ps = 100))"

text \<open>A trace before its outcome: progress updates and yields only.\<close>

definition quiet :: "effect list \<Rightarrow> bool" where
  "quiet pre = list_all (\<lambda>e. \<not> is_outcome e) pre"

definition run_shape :: "effect list \<Rightarrow> bool" where
  "run_shape tr = (\<exists>pre t. tr = pre @ [t] \<and> quiet pre \<and> is_outcome t
      \<and> progress_run (progress_of pre) (is_result t))"

section \<open>Example documents and browsers\<close>

text \<open>
  A workbook with the worksheets A, B and C, each worksheet standing for the table
  that \<open>sheet_to_html\<close> makes of it, and a presentation of two slides, the second
  without text.
\<close>

definition abc_workbook :: "jsstring workbook" where
  "abc_workbook =
     \<lparr>SheetNames = [js ''A'', js ''B'', js ''C''],
      Sheets = [js ''A'' \<mapsto> js ''<table>a</table>'', js ''B'' \<mapsto> js ''<table>b</table>'',
                js ''C'' \<mapsto> js ''<table>c</table>'']\<rparr>"

definition two_slides :: presentation where
  "two_slides =
     \<lparr>slides = [\<lparr>slide_text = Some [\<lparr>level = 0, content = js ''Q&A''\<rparr>]\<rparr>,
                \<lparr>slide_text = None\<rparr>]\<rparr>"

definition table_of :: "jsstring option \<Rightarrow> exn + jsstring" where
  "table_of w = (case w of None \<Rightarrow> Inl (js ''no worksheet'') | Some t \<Rightarrow> Inr t)"

definition abc_libs :: "(unit, jsstring) libs" where
  "abc_libs =
     \<lparr>XLSX_read = (\<lambda>b. Inr abc_workbook), sheet_to_html = table_of,
      PptxParser_parse = (\<lambda>b. Inr two_slides)\<rparr>"

definition not_defined :: "jsstring \<Rightarrow> jsstring" where
  "not_defined x = x @ js '' is not defined''"

definition with_worker :: "(unit, jsstring) browser" where
  "with_worker =
     \<lparr>Worker_available = True, importScripts = None, lib = abc_libs,
      ReferenceError_message = not_defined\<rparr>"

definition without_worker :: "(unit, jsstring) browser" where
  "without_worker =
     \<lparr>Worker_available = False, importScripts = None, lib = abc_libs,
      ReferenceError_message = not_defined\<rparr>"

definition abc_html :: jsstring where
  \<open>abc_html =
     xlsx_header 3 @
     worksheet_block 0 (js ''A'') (js ''<table>a</table>'') @
     worksheet_block 1 (js ''B'') (js ''<table>b</table>'') @
     worksheet_block 2 (js ''C'') (js ''<table>c</table>'') @ js ''</div>''\<close>

text \<open>
  A workbook with the worksheets A and B, each worksheet standing for what
  \<open>sheet_to_html\<close> does with it: A converts, B makes it throw.
\<close>

definition convert :: "(exn + jsstring) option \<Rightarrow> exn + jsstring" where
  "convert w = (case w of None \<Rightarrow> Inl (js ''no worksheet'') | Some r \<Rightarrow> r)"

definition ab_workbook :: "(exn + jsstring) workbook" where
  "ab_workbook =
     \<lparr>SheetNames = [js ''A'', js ''B''],
      Sheets = [js ''A'' \<mapsto> Inr (js ''<table>a</table>''),
                js ''B'' \<mapsto> Inl (js ''bad worksheet'')]\<rparr>"

definition ab_libs :: "(unit, exn + jsstring) libs" where
  "ab_libs =
     \<lparr>XLSX_read = (\<lambda>b. Inr ab_workbook), sheet_to_html = convert,
      PptxParser_parse = (\<lambda>b. Inr two_slides)\<rparr>"

text \<open>A workbook whose only worksheet is named \<open><script>\<close>.\<close>

definition script_workbook :: "jsstring workbook" where
  "script_workbook =
     \<lparr>SheetNames = [js ''<script>''],
      Sheets = [js ''<script>'' \<mapsto> js ''<table></table>'']\<rparr>"

definition script_libs :: "(unit, jsstring) libs" where
  "script_libs =
     \<lparr>XLSX_read = (\<lambda>b. Inr script_workbook), sheet_to_html = table_of,
      PptxParser_parse = (\<lambda>b. Inr two_slides)\<rparr>"

definition script_browser :: "(unit, jsstring) browser" where
  "script_browser =
     \<lparr>Worker_available = True, importScripts = None, lib = script_libs,
      ReferenceError_message = not_defined\<rparr>"

text \<open>
  A browser in which the worker script fails at \<open>importScripts\<close>, and one in which
  the worker starts and \<open>XLSX.read\<close> rejects the file.
\<close>

definition crashed_browser :: "(unit, jsstring) browser" where
  "crashed_browser =
     \<lparr>Worker_available = True, importScripts = Some (js ''boom''), lib = abc_libs,
      ReferenceError_message = not_defined\<rparr>"

definition rejecting_libs :: "(unit, jsstring) libs" where
  "rejecting_libs =
     \<lparr>XLSX_read = (\<lambda>b. Inl (js ''boom'')), sheet_to_html = table_of,
      PptxParser_parse = (\<lambda>b. Inr two_slides)\<rparr>"

definition rejecting_browser :: "(unit, jsstring) browser" where
  "rejecting_browser =
     \<lparr>Worker_available = True, importScripts = None, lib = rejecting_libs,
      ReferenceError_message = not_defined\<rparr>"

text \<open>A page without the progress elements.\<close>

definition no_indicator :: indicator where
  "no_indicator = \<lparr>progressBar = None, progressText = None\<rparr>"

text \<open>
  Pages for the virtual scroller: a payload of 600000 characters; a layout in which it
  has one top-level element, 5000 pixels high in a viewport of 500; and one in which it
  has 100 top-level elements in a viewport of 100.
\<close>

definition big_html :: jsstring where
  "big_html = replicate 600000 0x20"

definition one_div :: "jsstring layout" where
  "one_div = \<lparr>children = (\<lambda>html. [html]), offsetHeight = (\<lambda>html. 5000), clientHeight = 500\<rparr>"

definition rows :: "nat layout" where
  "rows = \<lparr>children = (\<lambda>html. [0..<100]), offsetHeight = (\<lambda>html. 1000), clientHeight = 100\<rparr>"

text \<open>
  A payload of 100 paragraphs of 6000 letters each, and the layout of a page that
  shows them, each paragraph on a line of 18 pixels, in a viewport of 100.
\<close>

definition long_paragraph :: jsstring where
  "long_paragraph = js ''<p>'' @ replicate 6000 0x61 @ js ''</p>''"

definition hundred_paragraphs :: jsstring where
  "hundred_paragraphs = concat (replicate 100 long_paragraph)"

definition paragraphs :: "jsstring layout" where
  "paragraphs =
     \<lparr>children = (\<lambda>html. if html = hundred_paragraphs then replicate 100 long_paragraph else []),
      offsetHeight = (\<lambda>html. 1800), clientHeight = 100\<rparr>"

section \<open>Looking into the HTML\<close>

text \<open>The number of places of a string at which a given marker starts.\<close>

fun count_infix :: "jsstring \<Rightarrow> jsstring \<Rightarrow> nat" where
  "count_infix m [] = 0"
| "count_infix m (x # xs) = (if prefix m (x # xs) then 1 else 0) + count_infix m xs"

definition is_digit :: "jschar \<Rightarrow> bool" where
  "is_digit c = (48 \<le> unat c \<and> unat c \<le> 57)"

text \<open>The first code unit of every error message that the worker posts.\<close>

definition worker_error :: "jsstring \<Rightarrow> bool" where
  "worker_error m = (m \<noteq> [] \<and> (hd m = 0x45 \<or> hd m = 0x50 \<or> hd m = 0x4E0D))"

text \<open>The number that a string of decimal digits denotes.\<close>

definition digits_value :: "jsstring \<Rightarrow> nat" where
  "digits_value s = foldl (\<lambda>a c. 10 * a + (unat c - 48)) 0 s"

text \<open>The most nodes that a viewport of the given height ever shows.\<close>

definition slice_bound :: "int \<Rightarrow> nat" where
  "slice_bound viewportHeight = nat (\<lceil>(of_int viewportHeight + 2 * buffer) / 10\<rceil> + 1)"

section \<open>Properties\<close>

lemma sheet_progress_mono: "i \<le> j \<Longrightarrow> sheet_progress i n \<le> sheet_progress j n"
  unfolding sheet_progress_def Math_round_def
  by (intro add_left_mono floor_mono add_right_mono mult_right_mono divide_right_mono) auto

lemma sheet_progress_lower: "20 \<le> sheet_progress i n"
  unfolding sheet_progress_def Math_round_def
  by (simp add: floor_le_iff le_floor_iff)

lemma sheet_progress_upper:
  assumes "i < n" shows "sheet_progress i n \<le> 80"
proof -
  have "(of_nat i :: rat) / of_nat n \<le> 1" using assms by simp
  then have "(of_nat i :: rat) / of_nat n * 60 + 1 / 2 < 61" by linarith
  then have "\<lfloor>(of_nat i :: rat) / of_nat n * 60 + 1 / 2\<rfloor> < 61"
    by (simp add: floor_less_iff)
  then show ?thesis unfolding sheet_progress_def Math_round_def by simp
qed

lemma sorted_sheet_progress: "sorted (map (\<lambda>k. sheet_progress k n) [i..<j])"
  by (simp add: sorted_iff_nth_mono sheet_progress_mono)

lemma sheet_values_upt:
  "j \<le> max i n \<Longrightarrow> sheet_values (map (\<lambda>k. sheet_progress k n) [i..<j])"
  by (auto simp: sheet_values_def sorted_sheet_progress list_all_iff
      sheet_progress_lower sheet_progress_upper)

lemma parseXlsx_loop_shape:
  "\<exists>j. fst (parseXlsx_loop L wb i h posted) =
            posted @ map (\<lambda>k. Progress (sheet_progress k (length (SheetNames wb)))) [i..<j]
        \<and> j \<le> max i (length (SheetNames wb))"
proof (induction L wb i h posted rule: parseXlsx_loop.induct)
  case (1 L wb i h posted)
  show ?case
  proof (cases "i < length (SheetNames wb)")
    case False
    then show ?thesis
      by (subst parseXlsx_loop.simps) (auto intro: exI [of _ i])
  next
    case True
    show ?thesis
    proof (cases "sheet_to_html L (Sheets wb (SheetNames wb ! i))")
      case (Inl e)
      with True show ?thesis
        by (subst parseXlsx_loop.simps) (auto intro!: exI [of _ "Suc i"])
    next
      case (Inr html)
      from "1.IH" [OF True Inr] obtain j where
        j: "fst (parseXlsx_loop L wb (Suc i) (h @ worksheet_block i (SheetNames wb ! i) html)
               (posted @ [Progress (sheet_progress i (length (SheetNames wb)))])) =
            (posted @ [Progress (sheet_progress i (length (SheetNames wb)))]) @
              map (\<lambda>k. Progress (sheet_progress k (length (SheetNames wb)))) [Suc i..<j]"
        and le: "j \<le> max (Suc i) (length (SheetNames wb))" by blast
      show ?thesis
      proof (cases "Suc i \<le> j")
        case True
        with j le \<open>i < length (SheetNames wb)\<close> Inr show ?thesis
          by (subst parseXlsx_loop.simps) (auto intro!: exI [of _ j] simp: upt_conv_Cons)
      next
        case False
        with j le \<open>i < length (SheetNames wb)\<close> Inr show ?thesis
          by (subst parseXlsx_loop.simps) (auto intro!: exI [of _ "Suc i"])
      qed
    qed
  qed
qed

lemma parseXlsx_loop_posted:
  "\<exists>ps. fst (parseXlsx_loop L wb i h posted) = posted @ map Progress ps \<and> sheet_values ps"
proof -
  from parseXlsx_loop_shape [of L wb i h posted] obtain j where
    "fst (parseXlsx_loop L wb i h posted) =
       posted @ map (\<lambda>k. Progress (sheet_progress k (length (SheetNames wb)))) [i..<j]"
    and "j \<le> max i (length (SheetNames wb))" by blast
  then show ?thesis
    by (intro exI [of _ "map (\<lambda>k. sheet_progress k (length (SheetNames wb))) [i..<j]"])
       (simp add: sheet_values_upt comp_def)
qed

lemma progress_run_sheets:
  "sheet_values ps \<Longrightarrow> progress_run (10 # 20 # ps) False"
  "sheet_values ps \<Longrightarrow> progress_run (10 # 20 # ps @ [100]) True"
  by (auto simp: progress_run_def sheet_values_def sorted_append list_all_iff)

lemma js_nonempty [simp]: "js (c # s) @ t \<noteq> []" "js (c # s) \<noteq> []"
  by (simp_all add: js_def)

lemma failed_nonempty [simp]:
  "Excel_failed e \<noteq> []" "PowerPoint_failed e \<noteq> []" "unsupported_type t \<noteq> []"
  by (simp_all add: Excel_failed_def PowerPoint_failed_def unsupported_type_def)

lemma self_onmessage_shape:
  "\<exists>ps m. self_onmessage L type buf sz = map Progress ps @ [m] \<and> final_msg m
      \<and> progress_run ps (result_msg m)"
proof -
  consider (xlsx) "type = js ''parse-xlsx''" | (pptx) "type \<noteq> js ''parse-xlsx''" "type = js ''parse-pptx''"
    | (other) "type \<noteq> js ''parse-xlsx''" "type \<noteq> js ''parse-pptx''" by blast
  then show ?thesis
  proof cases
    case xlsx
    show ?thesis
    proof (cases "XLSX_read L buf")
      case (Inl e)
      with xlsx show ?thesis
        by (auto simp: self_onmessage_def parseXlsx_def progress_run_def intro!: exI [of _ "[10]"])
    next
      case (Inr wb)
      obtain ps where ps: "fst (parseXlsx_loop L wb 0 (xlsx_header (length (SheetNames wb)))
             [Progress 10, Progress 20]) = [Progress 10, Progress 20] @ map Progress ps"
        and sv: "sheet_values ps"
        using parseXlsx_loop_posted by blast
      show ?thesis
      proof (cases "snd (parseXlsx_loop L wb 0 (xlsx_header (length (SheetNames wb)))
             [Progress 10, Progress 20])")
        case (Inl e)
        with ps have "parseXlsx_loop L wb 0 (xlsx_header (length (SheetNames wb)))
             [Progress 10, Progress 20] = (map Progress (10 # 20 # ps), Inl e)"
          by (simp add: prod_eq_iff)
        with xlsx Inr progress_run_sheets(1) [OF sv] show ?thesis
          by (auto simp: self_onmessage_def parseXlsx_def intro!: exI [of _ "10 # 20 # ps"])
      next
        case (Inr html)
        with ps have "parseXlsx_loop L wb 0 (xlsx_header (length (SheetNames wb)))
             [Progress 10, Progress 20] = (map Progress (10 # 20 # ps), Inr html)"
          by (simp add: prod_eq_iff)
        with xlsx \<open>XLSX_read L buf = Inr wb\<close> progress_run_sheets(2) [OF sv] show ?thesis
          by (auto simp: self_onmessage_def parseXlsx_def intro!: exI [of _ "10 # 20 # ps @ [100]"])
      qed
    qed
  next
    case pptx
    show ?thesis
    proof (cases "PptxParser_parse L buf")
      case (Inl e)
      with pptx show ?thesis
        by (auto simp: self_onmessage_def parsePptx_def progress_run_def intro!: exI [of _ "[10, 30]"])
    next
      case (Inr p)
      with pptx show ?thesis
        by (auto simp: self_onmessage_def parsePptx_def progress_run_def
            intro!: exI [of _ "[10, 30, 60, 100]"])
    qed
  next
    case other
    then show ?thesis
      by (auto simp: self_onmessage_def progress_run_def intro!: exI [of _ "[]"])
  qed
qed

lemma parseXlsxInChunks_loop_shape:
  "\<exists>j. fst (parseXlsxInChunks_loop L cb wb i h acc) =
            acc @ concat (map (\<lambda>k. cb (sheet_progress k (length (SheetNames wb))) @ [IdleYield]) [i..<j])
        \<and> j \<le> max i (length (SheetNames wb))"
proof (induction L cb wb i h acc rule: parseXlsxInChunks_loop.induct)
  case (1 L cb wb i h acc)
  show ?case
  proof (cases "i < length (SheetNames wb)")
    case False
    then show ?thesis
      by (subst parseXlsxInChunks_loop.simps) (auto intro: exI [of _ i])
  next
    case True
    show ?thesis
    proof (cases "sheet_to_html L (Sheets wb (SheetNames wb ! i))")
      case (Inl e)
      with True show ?thesis
        by (subst parseXlsxInChunks_loop.simps) (auto intro!: exI [of _ "Suc i"])
    next
      case (Inr html)
      from "1.IH" [OF True Inr] obtain j where
        j: "fst (parseXlsxInChunks_loop L cb wb (Suc i)
               (h @ worksheet_block i (SheetNames wb ! i) html)
               (acc @ cb (sheet_progress i (length (SheetNames wb))) @ [IdleYield])) =
            (acc @ cb (sheet_progress i (length (SheetNames wb))) @ [IdleYield]) @
              concat (map (\<lambda>k. cb (sheet_progress k (length (SheetNames wb))) @ [IdleYield])
                [Suc i..<j])"
        and le: "j \<le> max (Suc i) (length (SheetNames wb))" by blast
      show ?thesis
      proof (cases "Suc i \<le> j")
        case True
        with j le \<open>i < length (SheetNames wb)\<close> Inr show ?thesis
          by (subst parseXlsxInChunks_loop.simps) (auto intro!: exI [of _ j] simp: upt_conv_Cons)
      next
        case False
        with j le \<open>i < length (SheetNames wb)\<close> Inr show ?thesis
          by (subst parseXlsxInChunks_loop.simps) (auto intro!: exI [of _ "Suc i"])
      qed
    qed
  qed
qed

lemma quiet_simps [simp]:
  "quiet []"
  "quiet (UpdateProgress p # es) = quiet es"
  "quiet (IdleYield # es) = quiet es"
  "quiet (xs @ ys) = (quiet xs \<and> quiet ys)"
  by (simp_all add: quiet_def is_outcome_def)

lemma progress_of_append [simp]: "progress_of (xs @ ys) = progress_of xs @ progress_of ys"
  by (induction xs rule: progress_of.induct) simp_all

lemma quiet_chunks [simp]:
  "quiet (concat (map (\<lambda>k. [UpdateProgress (f k), IdleYield]) ks))"
  by (induction ks) simp_all

lemma progress_of_chunks [simp]:
  "progress_of (concat (map (\<lambda>k. [UpdateProgress (f k), IdleYield]) ks)) = map f ks"
  by (induction ks) simp_all

lemma quiet_updates [simp]: "quiet (map UpdateProgress ps)"
  by (induction ps) simp_all

lemma progress_of_updates [simp]: "progress_of (map UpdateProgress ps) = ps"
  by (induction ps) simp_all

lemma parseXlsxInChunks_loop_effects:
  "\<exists>pre ps. fst (parseXlsxInChunks_loop L (\<lambda>p. [UpdateProgress p]) wb i h acc) = acc @ pre
      \<and> quiet pre \<and> progress_of pre = ps \<and> sheet_values ps"
proof -
  from parseXlsxInChunks_loop_shape [of L "\<lambda>p. [UpdateProgress p]" wb i h acc] obtain j where
    "fst (parseXlsxInChunks_loop L (\<lambda>p. [UpdateProgress p]) wb i h acc) =
       acc @ concat (map (\<lambda>k. [UpdateProgress (sheet_progress k (length (SheetNames wb))), IdleYield]) [i..<j])"
    and "j \<le> max i (length (SheetNames wb))" by auto
  then show ?thesis
    by (simp add: sheet_values_upt)
qed

lemma worker_run_shape:
  "run_shape (concat (map worker_onmessage (self_onmessage L type buf sz)))"
proof -
  obtain ps m where m: "self_onmessage L type buf sz = map Progress ps @ [m]" "final_msg m"
      "progress_run ps (result_msg m)"
    using self_onmessage_shape [of L type buf sz] by blast
  have pre: "concat (map (worker_onmessage \<circ> Progress) ps) = map UpdateProgress ps"
    by (induction ps) simp_all
  from m(2) obtain t where t: "worker_onmessage m = [t]" "is_outcome t" "is_result t = result_msg m"
    by (cases m) (auto simp: is_outcome_def)
  show ?thesis
    unfolding run_shape_def
    by (rule exI [of _ "map UpdateProgress ps"], rule exI [of _ t]) (simp add: m pre t)
qed

lemma fallback_xlsx_run_shape:
  "run_shape (case parseXlsxInChunks L buf (\<lambda>p. [UpdateProgress p]) of
                (acc, Inr v) \<Rightarrow> acc @ [RenderContent v]
              | (acc, Inl message) \<Rightarrow> acc @ [ParsingError message])"
proof (cases "XLSX_read L buf")
  case (Inl e)
  then show ?thesis
    unfolding run_shape_def
    by (intro exI [of _ "[UpdateProgress 10]"] exI [of _ "ParsingError e"])
       (simp add: parseXlsxInChunks_def is_outcome_def progress_run_def)
next
  case (Inr wb)
  let ?run = "parseXlsxInChunks_loop L (\<lambda>p. [UpdateProgress p]) wb 0
                (xlsx_header (length (SheetNames wb))) [UpdateProgress 10, UpdateProgress 20]"
  obtain pre where pre: "fst ?run = [UpdateProgress 10, UpdateProgress 20] @ pre" "quiet pre"
      "sheet_values (progress_of pre)"
    using parseXlsxInChunks_loop_effects [of L wb 0 "xlsx_header (length (SheetNames wb))" "[UpdateProgress 10, UpdateProgress 20]"] by blast
  show ?thesis
  proof (cases "snd ?run")
    case (Inl e)
    with pre(1) have "?run = ([UpdateProgress 10, UpdateProgress 20] @ pre, Inl e)"
      by (simp add: prod_eq_iff)
    with Inr pre(2) progress_run_sheets(1) [OF pre(3)] show ?thesis
      unfolding run_shape_def
      by (intro exI [of _ "[UpdateProgress 10, UpdateProgress 20] @ pre"] exI [of _ "ParsingError e"])
         (simp add: parseXlsxInChunks_def is_outcome_def)
  next
    case (Inr html)
    with pre(1) have "?run = ([UpdateProgress 10, UpdateProgress 20] @ pre, Inr html)"
      by (simp add: prod_eq_iff)
    with \<open>XLSX_read L buf = Inr wb\<close> pre(2) progress_run_sheets(2) [OF pre(3)] show ?thesis
      unfolding run_shape_def
      by (intro exI [of _ "[UpdateProgress 10, UpdateProgress 20] @ pre @ [UpdateProgress 100]"]
            exI [of _ "RenderContent (html @ js ''</div>'')"])
         (simp add: parseXlsxInChunks_def is_outcome_def)
  qed
qed

lemma single_run_shape: "is_error t \<Longrightarrow> run_shape [t]"
  unfolding run_shape_def
  by (intro exI [of _ "[]"] exI [of _ t]) (cases t; simp add: is_outcome_def progress_run_def)

lemma parseLargeFile_run_shape: "run_shape (parseLargeFile B buf docType sz)"
proof (cases "Worker_available B")
  case True
  then show ?thesis
    by (cases "importScripts B")
       (simp_all add: parseLargeFile_def worker_run_shape worker_onerror_def single_run_shape)
next
  case False
  then show ?thesis
    using fallback_xlsx_run_shape [of "lib B" buf]
    by (simp add: parseLargeFile_def single_run_shape)
qed

lemma run_shape_outcomes:
  assumes "run_shape tr"
  shows "length (filter is_result tr) + length (filter is_error tr) = 1"
    and "tr \<noteq> []" and "is_outcome (last tr)"
proof -
  from assms obtain pre t where tr: "tr = pre @ [t]" "quiet pre" "is_outcome t"
    unfolding run_shape_def by blast
  from tr(2) have "filter is_result pre = []" "filter is_error pre = []"
    by (auto simp: quiet_def list_all_iff is_outcome_def filter_empty_conv)
  with tr(1,3) show "length (filter is_result tr) + length (filter is_error tr) = 1"
    by (cases t) (simp_all add: is_outcome_def)
  from tr show "tr \<noteq> []" "is_outcome (last tr)" by simp_all
qed

lemma run_shape_progress:
  assumes "run_shape tr"
  shows "sorted (progress_before_outcome tr)"
    and "is_result (last tr) \<Longrightarrow>
           progress_before_outcome tr \<noteq> [] \<and> last (progress_before_outcome tr) = 100"
proof -
  from assms obtain pre t where tr: "tr = pre @ [t]" "quiet pre" "is_outcome t"
      "progress_run (progress_of pre) (is_result t)"
    unfolding run_shape_def by blast
  from tr(2,3) have "takeWhile (\<lambda>e. \<not> is_outcome e) (pre @ [t]) = pre"
    by (simp add: quiet_def list_all_iff)
  then have eq: "progress_before_outcome tr = progress_of pre"
    by (simp add: progress_before_outcome_def tr(1))
  from tr(4) show "sorted (progress_before_outcome tr)"
    by (simp add: eq progress_run_def)
  assume "is_result (last tr)"
  with tr(1,4) show "progress_before_outcome tr \<noteq> [] \<and> last (progress_before_outcome tr) = 100"
    unfolding eq by (simp add: progress_run_def)
qed

subsection \<open>The example request\<close>

lemma sheet_progress_div:
  "0 < n \<Longrightarrow> sheet_progress i n = 20 + (120 * int i + int n) div (2 * int n)"
proof -
  assume n: "0 < n"
  have "(of_nat i :: rat) / of_nat n * 60 + 1 / 2 = of_int (120 * int i + int n) / of_int (2 * int n)"
    using n by (simp add: field_simps)
  then show ?thesis
    unfolding sheet_progress_def Math_round_def
    by (simp only: floor_divide_of_int_eq)
qed

lemma abc_simps:
  "XLSX_read abc_libs b = Inr abc_workbook"
  "SheetNames abc_workbook = [js ''A'', js ''B'', js ''C'']"
  "sheet_to_html abc_libs (Sheets abc_workbook (js ''A'')) = Inr (js ''<table>a</table>'')"
  "sheet_to_html abc_libs (Sheets abc_workbook (js ''B'')) = Inr (js ''<table>b</table>'')"
  "sheet_to_html abc_libs (Sheets abc_workbook (js ''C'')) = Inr (js ''<table>c</table>'')"
  by (simp_all add: abc_libs_def abc_workbook_def table_of_def js_def)

lemma abc_loop:
  "parseXlsx_loop abc_libs abc_workbook 0 h posted =
     (posted @ [Progress 20, Progress 40, Progress 60],
      Inr (h @ worksheet_block 0 (js ''A'') (js ''<table>a</table>'') @
     worksheet_block 1 (js ''B'') (js ''<table>b</table>'') @
     worksheet_block 2 (js ''C'') (js ''<table>c</table>'')))"
  by (simp add: parseXlsx_loop.simps abc_simps sheet_progress_div numeral_2_eq_2)

lemma abc_worker_trace:
  "parseLargeFile with_worker () (js ''xlsx'') 0 =
     [UpdateProgress 10, UpdateProgress 20, UpdateProgress 20, UpdateProgress 40,
      UpdateProgress 60, UpdateProgress 100, RenderContent abc_html]"
  by (simp add: parseLargeFile_def with_worker_def self_onmessage_def parseXlsx_def
       abc_simps abc_loop abc_html_def js_def numeral_3_eq_3)

subsection \<open>One outcome per request\<close>

text \<open>
  C1. Every conversion request, of either document kind or of an unknown one, with or
  without a worker, whether the libraries return or throw and whether the worker script
  loads or not, makes exactly one call that delivers an outcome: one
  \<open>renderParsedContent\<close> or one \<open>handleParsingError\<close>, never none and never both.
  The outcome is the last thing the request does.
\<close>

theorem one_outcome_per_request:
  "length (filter is_result (parseLargeFile B arrayBuffer docType fileSize)) +
   length (filter is_error (parseLargeFile B arrayBuffer docType fileSize)) = 1
   \<and> parseLargeFile B arrayBuffer docType fileSize \<noteq> []
   \<and> is_outcome (last (parseLargeFile B arrayBuffer docType fileSize))"
  using run_shape_outcomes [OF parseLargeFile_run_shape [of B arrayBuffer docType fileSize]]
  by blast

theorem one_outcome_per_request_witness:
  "length (filter is_result (parseLargeFile with_worker () (js ''xlsx'') 0)) = 1
   \<and> length (filter is_error (parseLargeFile with_worker () (js ''xlsx'') 0)) = 0"
  using one_outcome_per_request [of with_worker "()" "js ''xlsx''" 0]
  by (simp add: abc_worker_trace)

subsection \<open>Progress\<close>

text \<open>
  C2. For every conversion request, the progress values passed to
  \<open>updateProgressIndicator\<close> before the outcome are non-decreasing, and when the
  request succeeds (its outcome is a rendered result) there is a last progress value
  and it is 100.
\<close>

theorem progress_nondecreasing_to_100:
  "sorted (progress_before_outcome (parseLargeFile B arrayBuffer docType fileSize))
   \<and> (is_result (last (parseLargeFile B arrayBuffer docType fileSize)) \<longrightarrow>
        progress_before_outcome (parseLargeFile B arrayBuffer docType fileSize) \<noteq> []
        \<and> last (progress_before_outcome (parseLargeFile B arrayBuffer docType fileSize)) = 100)"
  using run_shape_progress [OF parseLargeFile_run_shape [of B arrayBuffer docType fileSize]]
  by blast

theorem progress_nondecreasing_to_100_witness:
  "is_result (last (parseLargeFile with_worker () (js ''xlsx'') 0))
   \<and> progress_before_outcome (parseLargeFile with_worker () (js ''xlsx'') 0) =
       [10, 20, 20, 40, 60, 100]
   \<and> last (progress_before_outcome (parseLargeFile with_worker () (js ''xlsx'') 0)) = 100"
  using progress_nondecreasing_to_100 [of with_worker "()" "js ''xlsx''" 0]
  by (simp add: abc_worker_trace progress_before_outcome_def is_outcome_def)

subsection \<open>Worksheets: progress values and blocks\<close>

lemma parseXlsx_loop_success:
  "map (\<lambda>name. sheet_to_html L (Sheets wb name)) (SheetNames wb) = map Inr htmls \<Longrightarrow>
   parseXlsx_loop L wb i h posted =
     (posted @ map (\<lambda>k. Progress (sheet_progress k (length (SheetNames wb))))
                 [i..<length (SheetNames wb)],
      Inr (h @ concat (map (\<lambda>k. worksheet_block k (SheetNames wb ! k) (htmls ! k))
                 [i..<length (SheetNames wb)])))"
proof (induction L wb i h posted rule: parseXlsx_loop.induct)
  case (1 L wb i h posted)
  show ?case
  proof (cases "i < length (SheetNames wb)")
    case False
    then show ?thesis
      by (subst parseXlsx_loop.simps) simp
  next
    case True
    have len: "length htmls = length (SheetNames wb)"
      using arg_cong [OF "1.prems", of length] by simp
    have "sheet_to_html L (Sheets wb (SheetNames wb ! i)) = Inr (htmls ! i)"
      using arg_cong [OF "1.prems", of "\<lambda>xs. xs ! i"] True len by simp
    with True "1.IH" [OF True this "1.prems"] show ?thesis
      by (subst parseXlsx_loop.simps) (simp add: upt_conv_Cons)
  qed
qed

lemma parseXlsxInChunks_loop_success:
  "map (\<lambda>name. sheet_to_html L (Sheets wb name)) (SheetNames wb) = map Inr htmls \<Longrightarrow>
   parseXlsxInChunks_loop L cb wb i h acc =
     (acc @ concat (map (\<lambda>k. cb (sheet_progress k (length (SheetNames wb))) @ [IdleYield])
                 [i..<length (SheetNames wb)]),
      Inr (h @ concat (map (\<lambda>k. worksheet_block k (SheetNames wb ! k) (htmls ! k))
                 [i..<length (SheetNames wb)])))"
proof (induction L cb wb i h acc rule: parseXlsxInChunks_loop.induct)
  case (1 L cb wb i h acc)
  show ?case
  proof (cases "i < length (SheetNames wb)")
    case False
    then show ?thesis
      by (subst parseXlsxInChunks_loop.simps) simp
  next
    case True
    have len: "length htmls = length (SheetNames wb)"
      using arg_cong [OF "1.prems", of length] by simp
    have "sheet_to_html L (Sheets wb (SheetNames wb ! i)) = Inr (htmls ! i)"
      using arg_cong [OF "1.prems", of "\<lambda>xs. xs ! i"] True len by simp
    with True "1.IH" [OF True this "1.prems"] show ?thesis
      by (subst parseXlsxInChunks_loop.simps) (simp add: upt_conv_Cons)
  qed
qed

lemma Math_round_of_int: "Math_round (of_int k) = k"
  unfolding Math_round_def by (rule floor_unique) simp_all

lemma Math_round_simps [simp]: "Math_round 0 = 0" "Math_round (numeral w) = numeral w"
  using Math_round_of_int [of 0] Math_round_of_int [of "numeral w"] by simp_all

lemma ab_simps:
  "XLSX_read ab_libs b = Inr ab_workbook"
  "SheetNames ab_workbook = [js ''A'', js ''B'']"
  "sheet_to_html ab_libs (Sheets ab_workbook (js ''A'')) = Inr (js ''<table>a</table>'')"
  "sheet_to_html ab_libs (Sheets ab_workbook (js ''B'')) = Inl (js ''bad worksheet'')"
  by (simp_all add: ab_libs_def ab_workbook_def convert_def js_def)

lemma ab_loop:
  "parseXlsx_loop ab_libs ab_workbook 0 h posted =
     (posted @ [Progress 20, Progress 50], Inl (js ''bad worksheet''))"
  by (simp add: parseXlsx_loop.simps ab_simps sheet_progress_div)

text \<open>
  C6, as stated: every spreadsheet with \<open>n \<ge> 1\<close> worksheets has its per-worksheet
  progress values followed by 100 and by the HTML of its blocks. A spreadsheet with a
  worksheet that \<open>sheet_to_html\<close> does not convert has not: of the worksheets A and B,
  with B failing, \<open>parseXlsx\<close> posts 10, 20, 20 and 50 and then throws; there is no 100
  and no HTML.
\<close>

theorem worksheet_that_does_not_convert:
  "XLSX_read ab_libs () = Inr ab_workbook
   \<and> length (SheetNames ab_workbook) = 2
   \<and> parseXlsx ab_libs () 0 =
       ([Progress 10, Progress 20, Progress 20, Progress 50],
        Some (js ''Excel'' @ [0x89E3, 0x6790, 0x5931, 0x8D25] @ js '': bad worksheet''))"
  by (simp add: parseXlsx_def ab_simps ab_loop Excel_failed_def js_def)

text \<open>
  C6, amended. When \<open>XLSX.read\<close> returns a workbook of \<open>n \<ge> 1\<close> worksheets and every
  worksheet converts, \<open>parseXlsx\<close> posts the progress values 10 and 20, then
  \<open>20 + round((i / n) * 60)\<close> before worksheet \<open>i\<close> (counted from 0), each of them
  between 20 and 80, then 100, and then the result. The HTML of the result is the
  header followed by one \<open>worksheet-container\<close> block per worksheet, in the order of
  \<open>SheetNames\<close>, each with the number and name of its worksheet and with its table.
  For the worksheets A, B, C this is 10, 20, 20, 40, 60, 100 and three blocks.
\<close>

theorem worksheet_progress_and_blocks:
  assumes "XLSX_read L arrayBuffer = Inr wb"
    and "n = length (SheetNames wb)"
    and "1 \<le> n"
    and "map (\<lambda>name. sheet_to_html L (Sheets wb name)) (SheetNames wb) = map Inr htmls"
  shows \<open>parseXlsx L arrayBuffer fileSize =
     ([Progress 10, Progress 20] @
      map (\<lambda>i. Progress (20 + Math_round ((of_nat i / of_nat n) * 60))) [0..<n] @
      [Progress 100,
       XlsxResult
         (js ''<div class="xlsx-content">'' @ js ''<h3>Excel'' @ [0x6587, 0x6863] @ js '': '' @ num n @
          js '' '' @ [0x4E2A, 0x5DE5, 0x4F5C, 0x8868] @ js ''</h3>'' @
          concat (map (\<lambda>i.
              [0x0A] @ js ''                <div class="worksheet-container">'' @
              [0x0A] @ js ''                    <h4>'' @ [0x5DE5, 0x4F5C, 0x8868] @ js '' '' @
                num (i + 1) @ js '': '' @ SheetNames wb ! i @ js ''</h4>'' @
              [0x0A] @ js ''                    <div class="table-wrapper">'' @ htmls ! i @
                js ''</div>'' @
              [0x0A] @ js ''                </div>'' @
              [0x0A] @ js ''                <hr>'' @
              [0x0A] @ js ''            '') [0..<n]) @
          js ''</div>'')],
      None)
    \<and> list_all (\<lambda>i. 20 \<le> 20 + Math_round ((of_nat i / of_nat n) * 60)
                  \<and> 20 + Math_round ((of_nat i / of_nat n) * 60) \<le> 80) [0..<n]\<close>
proof -
  have "list_all (\<lambda>i. 20 \<le> sheet_progress i n \<and> sheet_progress i n \<le> 80) [0..<n]"
    by (simp add: list_all_iff sheet_progress_lower sheet_progress_upper)
  then show ?thesis
    using assms(1,2)
    by (simp add: parseXlsx_def parseXlsx_loop_success [OF assms(4)] sheet_progress_def
        xlsx_header_def worksheet_block_def nl_def)
qed

theorem worksheet_progress_and_blocks_witness:
  \<open>let html =
          js ''<div class="xlsx-content"><h3>Excel'' @ [0x6587, 0x6863] @ js '': 3 '' @
          [0x4E2A, 0x5DE5, 0x4F5C, 0x8868] @ js ''</h3>'' @ [0x0A] @
          js ''                <div class="worksheet-container">'' @ [0x0A] @
          js ''                    <h4>'' @ [0x5DE5, 0x4F5C, 0x8868] @ js '' 1: A</h4>'' @
          [0x0A] @
          js ''                    <div class="table-wrapper"><table>a</table></div>'' @
          [0x0A] @ js ''                </div>'' @ [0x0A] @ js ''                <hr>'' @
          [0x0A] @ js ''            '' @ [0x0A] @
          js ''                <div class="worksheet-container">'' @ [0x0A] @
          js ''                    <h4>'' @ [0x5DE5, 0x4F5C, 0x8868] @ js '' 2: B</h4>'' @
          [0x0A] @
          js ''                    <div class="table-wrapper"><table>b</table></div>'' @
          [0x0A] @ js ''                </div>'' @ [0x0A] @ js ''                <hr>'' @
          [0x0A] @ js ''            '' @ [0x0A] @
          js ''                <div class="worksheet-container">'' @ [0x0A] @
          js ''                    <h4>'' @ [0x5DE5, 0x4F5C, 0x8868] @ js '' 3: C</h4>'' @
          [0x0A] @
          js ''                    <div class="table-wrapper"><table>c</table></div>'' @
          [0x0A] @ js ''                </div>'' @ [0x0A] @ js ''                <hr>'' @
          [0x0A] @ js ''            </div>''
   in parseXlsx abc_libs () 0 =
        ([Progress 10, Progress 20, Progress 20, Progress 40, Progress 60, Progress 100,
          XlsxResult html], None)
      \<and> count_infix (js ''<div class="worksheet-container">'') html = 3\<close>
proof -
  have n: "3 = length (SheetNames abc_workbook)" "1 \<le> (3::nat)"
    by (simp_all add: abc_simps)
  have all: "map (\<lambda>name. sheet_to_html abc_libs (Sheets abc_workbook name))
        (SheetNames abc_workbook) =
      map Inr [js ''<table>a</table>'', js ''<table>b</table>'', js ''<table>c</table>'']"
    by (simp add: abc_simps)
  have upt: "[0..<3] = [0, 1, 2]"
    by (simp add: numeral_3_eq_3 upt_conv_Cons)
  have count: \<open>count_infix (js ''<div class="worksheet-container">'')
      (js ''<div class="xlsx-content"><h3>Excel'' @ [0x6587, 0x6863] @ js '': 3 '' @
      [0x4E2A, 0x5DE5, 0x4F5C, 0x8868] @ js ''</h3>'' @ [0x0A] @
      js ''                <div class="worksheet-container">'' @ [0x0A] @
      js ''                    <h4>'' @ [0x5DE5, 0x4F5C, 0x8868] @ js '' 1: A</h4>'' @
      [0x0A] @
      js ''                    <div class="table-wrapper"><table>a</table></div>'' @
      [0x0A] @ js ''                </div>'' @ [0x0A] @ js ''                <hr>'' @
      [0x0A] @ js ''            '' @ [0x0A] @
      js ''                <div class="worksheet-container">'' @ [0x0A] @
      js ''                    <h4>'' @ [0x5DE5, 0x4F5C, 0x8868] @ js '' 2: B</h4>'' @
      [0x0A] @
      js ''                    <div class="table-wrapper"><table>b</table></div>'' @
      [0x0A] @ js ''                </div>'' @ [0x0A] @ js ''                <hr>'' @
      [0x0A] @ js ''            '' @ [0x0A] @
      js ''                <div class="worksheet-container">'' @ [0x0A] @
      js ''                    <h4>'' @ [0x5DE5, 0x4F5C, 0x8868] @ js '' 3: C</h4>'' @
      [0x0A] @
      js ''                    <div class="table-wrapper"><table>c</table></div>'' @
      [0x0A] @ js ''                </div>'' @ [0x0A] @ js ''                <hr>'' @
      [0x0A] @ js ''            </div>'') = 3\<close>
    by (simp add: js_def)
  from worksheet_progress_and_blocks [OF abc_simps(1) n all, where fileSize = 0]
  have \<open>parseXlsx abc_libs () 0 =
     ([Progress 10, Progress 20, Progress 20, Progress 40, Progress 60, Progress 100,
       XlsxResult
      (js ''<div class="xlsx-content"><h3>Excel'' @ [0x6587, 0x6863] @ js '': 3 '' @
      [0x4E2A, 0x5DE5, 0x4F5C, 0x8868] @ js ''</h3>'' @ [0x0A] @
      js ''                <div class="worksheet-container">'' @ [0x0A] @
      js ''                    <h4>'' @ [0x5DE5, 0x4F5C, 0x8868] @ js '' 1: A</h4>'' @
      [0x0A] @
      js ''                    <div class="table-wrapper"><table>a</table></div>'' @
      [0x0A] @ js ''                </div>'' @ [0x0A] @ js ''                <hr>'' @
      [0x0A] @ js ''            '' @ [0x0A] @
      js ''                <div class="worksheet-container">'' @ [0x0A] @
      js ''                    <h4>'' @ [0x5DE5, 0x4F5C, 0x8868] @ js '' 2: B</h4>'' @
      [0x0A] @
      js ''                    <div class="table-wrapper"><table>b</table></div>'' @
      [0x0A] @ js ''                </div>'' @ [0x0A] @ js ''                <hr>'' @
      [0x0A] @ js ''            '' @ [0x0A] @
      js ''                <div class="worksheet-container">'' @ [0x0A] @
      js ''                    <h4>'' @ [0x5DE5, 0x4F5C, 0x8868] @ js '' 3: C</h4>'' @
      [0x0A] @
      js ''                    <div class="table-wrapper"><table>c</table></div>'' @
      [0x0A] @ js ''                </div>'' @ [0x0A] @ js ''                <hr>'' @
      [0x0A] @ js ''            </div>'')], None)\<close>
    by (simp add: upt abc_simps num.simps js_def)
  with count show ?thesis
    by (simp only: Let_def)
qed

subsection \<open>Slides without text\<close>

lemma is_digit_of_nat: "k < 10 \<Longrightarrow> is_digit (of_nat (48 + k))"
  unfolding is_digit_def unat_of_nat by simp

lemma digits_num: "list_all is_digit (num n)"
proof (induction n rule: num.induct)
  case (1 n)
  show ?case
  proof (cases "n < 10")
    case True
    then show ?thesis 
      by (subst num.simps) (simp add: is_digit_of_nat del: of_nat_add)
  next
    case False
    with 1 show ?thesis
      by (subst num.simps) (simp add: is_digit_of_nat del: of_nat_add)
  qed
qed

lemma is_digit_numeral [simp]:
  "is_digit (numeral w) = (48 \<le> unat (numeral w :: jschar) \<and> unat (numeral w :: jschar) \<le> 57)"
  by (rule is_digit_def)

lemma filter_num [simp]: "filter (\<lambda>c. \<not> is_digit c) (num n) = []"
proof -
  have "\<forall>c\<in>set (num n). is_digit c"
    using digits_num [of n] by (simp add: list_all_iff)
  then show ?thesis by (simp add: filter_empty_conv)
qed

lemma sublist_filter:
  "sublist m s \<Longrightarrow> sublist (filter P m) (filter P s)"
  by (metis filter_append sublist_def)

lemma no_slide_content:
  \<open>\<not> sublist (js ''<div class="slide-content">'')
      (js ''<div class="slide slide-'' @ num k @ js ''">'' @
       js ''<h4>'' @ [0x5E7B, 0x706F, 0x7247] @ js '' '' @ num k @ js ''</h4>'' @
       (js ''<p class="no-content">'' @
         [0x6B64, 0x5E7B, 0x706F, 0x7247, 0x6CA1, 0x6709, 0x53EF, 0x63D0, 0x53D6, 0x7684,
          0x6587, 0x672C, 0x5185, 0x5BB9] @ js ''</p>'') @ js ''</div><hr>'')\<close>
proof
  assume \<open>sublist (js ''<div class="slide-content">'')
      (js ''<div class="slide slide-'' @ num k @ js ''">'' @
       js ''<h4>'' @ [0x5E7B, 0x706F, 0x7247] @ js '' '' @ num k @ js ''</h4>'' @
       (js ''<p class="no-content">'' @
         [0x6B64, 0x5E7B, 0x706F, 0x7247, 0x6CA1, 0x6709, 0x53EF, 0x63D0, 0x53D6, 0x7684,
          0x6587, 0x672C, 0x5185, 0x5BB9] @ js ''</p>'') @ js ''</div><hr>'')\<close>
  from sublist_filter [OF this, of "\<lambda>c. \<not> is_digit c"]
  show False
    by (simp add: js_def sublist_Cons_right)
qed

lemma foldl_append_concat:
  "foldl (\<lambda>h (i, s). h @ g i s) a xs = a @ concat (map (\<lambda>(i, s). g i s) xs)"
  by (induction xs arbitrary: a) (simp_all split: prod.splits)

lemma concat_map_split:
  "k < length xs \<Longrightarrow>
   concat (map f xs) = concat (map f (take k xs)) @ f (xs ! k) @ concat (map f (drop (Suc k) xs))"
  by (subst id_take_nth_drop [of k xs]) simp_all

lemma slide_html_empty:
  assumes "slide_text s = None \<or> slide_text s = Some []"
  shows \<open>slide_html k s =
     js ''<div class="slide slide-'' @ num (k + 1) @ js ''">'' @
     js ''<h4>'' @ [0x5E7B, 0x706F, 0x7247] @ js '' '' @ num (k + 1) @ js ''</h4>'' @
     (js ''<p class="no-content">'' @
         [0x6B64, 0x5E7B, 0x706F, 0x7247, 0x6CA1, 0x6709, 0x53EF, 0x63D0, 0x53D6, 0x7684,
          0x6587, 0x672C, 0x5185, 0x5BB9] @ js ''</p>'') @ js ''</div><hr>''\<close>
  using assms by (auto simp: slide_html_def no_content_def)

text \<open>
  C9. When \<open>slide.text\<close> of a slide is absent or empty, the HTML that \<open>parsePptx\<close>
  emits for that slide, which is a part of the result, consists of the slide's opening
  tag and heading, the paragraph of class \<open>no-content\<close> with its text, and the closing
  tags. So it contains that paragraph, and it contains no \<open>slide-content\<close> container.
\<close>

theorem empty_slide_placeholder:
  assumes "PptxParser_parse L arrayBuffer = Inr p"
    and "k < length (slides p)"
    and "slide_text (slides p ! k) = None \<or> slide_text (slides p ! k) = Some []"
  shows \<open>parsePptx L arrayBuffer fileSize =
      ([Progress 10, Progress 30, Progress 60, Progress 100,
        PptxResult
          ((pptx_header (length (slides p)) @
            concat (map (\<lambda>(i, s). slide_html i s) (take k (enumerate 0 (slides p))))) @
           slide_html k (slides p ! k) @
           (concat (map (\<lambda>(i, s). slide_html i s) (drop (Suc k) (enumerate 0 (slides p)))) @
            js ''</div>''))],
       None)
    \<and> slide_html k (slides p ! k) =
        js ''<div class="slide slide-'' @ num (k + 1) @ js ''">'' @
        js ''<h4>'' @ [0x5E7B, 0x706F, 0x7247] @ js '' '' @ num (k + 1) @ js ''</h4>'' @
        (js ''<p class="no-content">'' @
         [0x6B64, 0x5E7B, 0x706F, 0x7247, 0x6CA1, 0x6709, 0x53EF, 0x63D0, 0x53D6, 0x7684,
          0x6587, 0x672C, 0x5185, 0x5BB9] @ js ''</p>'') @ js ''</div><hr>''
    \<and> sublist
        (js ''<p class="no-content">'' @
         [0x6B64, 0x5E7B, 0x706F, 0x7247, 0x6CA1, 0x6709, 0x53EF, 0x63D0, 0x53D6, 0x7684,
          0x6587, 0x672C, 0x5185, 0x5BB9] @ js ''</p>'')
        (slide_html k (slides p ! k))
    \<and> \<not> sublist (js ''<div class="slide-content">'') (slide_html k (slides p ! k))\<close>
proof -
  have "concat (map (\<lambda>(i, s). slide_html i s) (enumerate 0 (slides p))) =
      concat (map (\<lambda>(i, s). slide_html i s) (take k (enumerate 0 (slides p)))) @
      slide_html k (slides p ! k) @
      concat (map (\<lambda>(i, s). slide_html i s) (drop (Suc k) (enumerate 0 (slides p))))"
    using assms(2) concat_map_split [of k "enumerate 0 (slides p)" "\<lambda>(i, s). slide_html i s"]
    by (simp add: nth_enumerate_eq)
  then have run: "parsePptx L arrayBuffer fileSize =
      ([Progress 10, Progress 30, Progress 60, Progress 100,
        PptxResult
          ((pptx_header (length (slides p)) @
            concat (map (\<lambda>(i, s). slide_html i s) (take k (enumerate 0 (slides p))))) @
           slide_html k (slides p ! k) @
           (concat (map (\<lambda>(i, s). slide_html i s) (drop (Suc k) (enumerate 0 (slides p)))) @
            js ''</div>''))],
       None)"
    using assms(1) by (simp add: parsePptx_def foldl_append_concat)
  have html: \<open>slide_html k (slides p ! k) =
        (js ''<div class="slide slide-'' @ num (k + 1) @ js ''">'' @
         js ''<h4>'' @ [0x5E7B, 0x706F, 0x7247] @ js '' '' @ num (k + 1) @ js ''</h4>'') @
        (js ''<p class="no-content">'' @
         [0x6B64, 0x5E7B, 0x706F, 0x7247, 0x6CA1, 0x6709, 0x53EF, 0x63D0, 0x53D6, 0x7684,
          0x6587, 0x672C, 0x5185, 0x5BB9] @ js ''</p>'') @ js ''</div><hr>''\<close>
    using slide_html_empty [OF assms(3), of k] by simp
  have inside: \<open>sublist
        (js ''<p class="no-content">'' @
         [0x6B64, 0x5E7B, 0x706F, 0x7247, 0x6CA1, 0x6709, 0x53EF, 0x63D0, 0x53D6, 0x7684,
          0x6587, 0x672C, 0x5185, 0x5BB9] @ js ''</p>'')
        (slide_html k (slides p ! k))\<close>
    by (subst html) (rule sublist_appendI)
  have none: \<open>\<not> sublist (js ''<div class="slide-content">'') (slide_html k (slides p ! k))\<close>
    unfolding slide_html_empty [OF assms(3), of k] by (rule no_slide_content)
  from run slide_html_empty [OF assms(3), of k] inside none show ?thesis
    by (intro conjI)
qed

theorem empty_slide_placeholder_witness:
  \<open>parsePptx abc_libs () 0 =
      ([Progress 10, Progress 30, Progress 60, Progress 100,
        PptxResult
          ((js ''<div class="pptx-content"><h3>PowerPoint'' @ [0x6587, 0x6863] @
          js '': 2 '' @ [0x5F20, 0x5E7B, 0x706F, 0x7247] @
          js ''</h3><div class="slide slide-1"><h4>'' @ [0x5E7B, 0x706F, 0x7247] @
          js '' 1</h4><div class="slide-content"><h5 class="slide-text level-0">Q&amp;A</h5></div></div><hr>'') @
           slide_html 1 (slides two_slides ! 1) @ js ''</div>'')],
       None)
   \<and> slide_html 1 (slides two_slides ! 1) =
        js ''<div class="slide slide-2"><h4>'' @ [0x5E7B, 0x706F, 0x7247] @
        js '' 2</h4><p class="no-content">'' @
        [0x6B64, 0x5E7B, 0x706F, 0x7247, 0x6CA1, 0x6709, 0x53EF, 0x63D0, 0x53D6, 0x7684, 0x6587, 0x672C, 0x5185, 0x5BB9] @
        js ''</p></div><hr>''
   \<and> sublist
        (js ''<p class="no-content">'' @
         [0x6B64, 0x5E7B, 0x706F, 0x7247, 0x6CA1, 0x6709, 0x53EF, 0x63D0, 0x53D6, 0x7684,
          0x6587, 0x672C, 0x5185, 0x5BB9] @ js ''</p>'')
        (slide_html 1 (slides two_slides ! 1))
   \<and> \<not> sublist (js ''<div class="slide-content">'') (slide_html 1 (slides two_slides ! 1))\<close>
proof -
  have p: "PptxParser_parse abc_libs () = Inr two_slides"
    by (simp add: abc_libs_def)
  have k: "1 < length (slides two_slides)"
    by (simp add: two_slides_def)
  have e: "slide_text (slides two_slides ! 1) = None \<or> slide_text (slides two_slides ! 1) = Some []"
    by (simp add: two_slides_def)
  have pre: \<open>pptx_header (length (slides two_slides)) @
      concat (map (\<lambda>(i, s). slide_html i s) (take 1 (enumerate 0 (slides two_slides)))) =
          js ''<div class="pptx-content"><h3>PowerPoint'' @ [0x6587, 0x6863] @
          js '': 2 '' @ [0x5F20, 0x5E7B, 0x706F, 0x7247] @
          js ''</h3><div class="slide slide-1"><h4>'' @ [0x5E7B, 0x706F, 0x7247] @
          js '' 1</h4><div class="slide-content"><h5 class="slide-text level-0">Q&amp;A</h5></div></div><hr>''\<close>
    by (simp add: two_slides_def pptx_header_def slide_html_def text_html_def text_tag_def
        escapeHtml_def num.simps js_def)
  have post: "drop (Suc 1) (enumerate 0 (slides two_slides)) = []"
    by (simp add: two_slides_def)
  note claim = empty_slide_placeholder [OF p k e, where fileSize = 0, unfolded pre post]
  from claim have run: \<open>parsePptx abc_libs () 0 =
      ([Progress 10, Progress 30, Progress 60, Progress 100,
        PptxResult
          ((js ''<div class="pptx-content"><h3>PowerPoint'' @ [0x6587, 0x6863] @
          js '': 2 '' @ [0x5F20, 0x5E7B, 0x706F, 0x7247] @
          js ''</h3><div class="slide slide-1"><h4>'' @ [0x5E7B, 0x706F, 0x7247] @
          js '' 1</h4><div class="slide-content"><h5 class="slide-text level-0">Q&amp;A</h5></div></div><hr>'') @
           slide_html 1 (slides two_slides ! 1) @ js ''</div>'')],
       None)\<close>
    by simp
  from claim have html: \<open>slide_html 1 (slides two_slides ! 1) =
        js ''<div class="slide slide-2"><h4>'' @ [0x5E7B, 0x706F, 0x7247] @
        js '' 2</h4><p class="no-content">'' @
        [0x6B64, 0x5E7B, 0x706F, 0x7247, 0x6CA1, 0x6709, 0x53EF, 0x63D0, 0x53D6, 0x7684, 0x6587, 0x672C, 0x5185, 0x5BB9] @
        js ''</p></div><hr>''\<close>
    by (simp add: num.simps js_def)
  note inside = claim [THEN conjunct2, THEN conjunct2, THEN conjunct1]
  note none = claim [THEN conjunct2, THEN conjunct2, THEN conjunct2]
  show ?thesis
    by (intro conjI run html inside none)
qed

subsection \<open>Escaping\<close>

lemma set_replace_all: "set (replace_all c r s) \<subseteq> (set s - {c}) \<union> set r"
  by (induction s) auto

lemma escapeHtml_no_raw:
  "0x3C \<notin> set (escapeHtml s) \<and> 0x3E \<notin> set (escapeHtml s)
   \<and> 0x22 \<notin> set (escapeHtml s) \<and> 0x27 \<notin> set (escapeHtml s)"
proof (cases "s = []")
  case True
  then show ?thesis by (simp add: escapeHtml_def)
next
  case False
  let ?a = "replace_all 0x26 (js ''&amp;'') s"
  let ?b = "replace_all 0x3C (js ''&lt;'') ?a"
  let ?c = "replace_all 0x3E (js ''&gt;'') ?b"
  let ?d = "replace_all 0x22 (js ''&quot;'') ?c"
  let ?e = "replace_all 0x27 (js ''&#039;'') ?d"
  have b: "0x3C \<notin> set ?b"
    using set_replace_all [of "0x3C" "js ''&lt;''" ?a] by (auto simp: js_def)
  have c: "0x3C \<notin> set ?c" "0x3E \<notin> set ?c"
    using b set_replace_all [of "0x3E" "js ''&gt;''" ?b] by (auto simp: js_def)
  have d: "0x3C \<notin> set ?d" "0x3E \<notin> set ?d" "0x22 \<notin> set ?d"
    using c set_replace_all [of "0x22" "js ''&quot;''" ?c] by (auto simp: js_def)
  have e: "0x3C \<notin> set ?e" "0x3E \<notin> set ?e" "0x22 \<notin> set ?e" "0x27 \<notin> set ?e"
    using d set_replace_all [of "0x27" "js ''&#039;''" ?d] by (auto simp: js_def)
  from False e show ?thesis by (simp add: escapeHtml_def)
qed

lemma script_simps:
  "XLSX_read script_libs b = Inr script_workbook"
  "SheetNames script_workbook = [js ''<script>'']"
  "sheet_to_html script_libs (Sheets script_workbook (js ''<script>'')) = Inr (js ''<table></table>'')"
  by (simp_all add: script_libs_def script_workbook_def table_of_def)

lemma script_loop:
  "parseXlsx_loop script_libs script_workbook 0 h posted =
     (posted @ [Progress 20],
      Inr (h @ worksheet_block 0 (js ''<script>'') (js ''<table></table>'')))"
  by (simp add: parseXlsx_loop.simps script_simps sheet_progress_div)

lemma sublist_worksheet_name: "sublist sheetName (worksheet_block i sheetName html)"
proof -
  have \<open>worksheet_block i sheetName html =
     (nl @ js ''                <div class="worksheet-container">'' @
     nl @ js ''                    <h4>'' @ [0x5DE5, 0x4F5C, 0x8868] @ js '' '' @
          num (i + 1) @ js '': '') @ sheetName @ (js ''</h4>'' @
     nl @ js ''                    <div class="table-wrapper">'' @ html @ js ''</div>'' @
     nl @ js ''                </div>'' @
     nl @ js ''                <hr>'' @
     nl @ js ''            '')\<close>
    by (simp add: worksheet_block_def)
  then show ?thesis
    by (simp only: sublist_appendI)
qed

text \<open>
  C3. All text taken from the document is to be escaped before it enters the HTML.
  \<open>parsePptx\<close> escapes the text of a slide (\<open>escapeHtml_no_raw\<close>);
  \<open>parseXlsx\<close> inserts the name of a worksheet as it is. For a workbook whose
  worksheet is named \<open><script>\<close> the HTML handed to \<open>renderParsedContent\<close> contains
  the raw name, where \<open>escapeHtml\<close> would have given \<open>&lt;script&gt;\<close>.
\<close>

theorem sheet_name_not_escaped:
  \<open>parseLargeFile script_browser () (js ''xlsx'') 0 =
     [UpdateProgress 10, UpdateProgress 20, UpdateProgress 20, UpdateProgress 100,
      RenderContent
        (xlsx_header 1 @
         worksheet_block 0 (js ''<script>'') (js ''<table></table>'') @ js ''</div>'')]
   \<and> sublist (js ''<script>'') (worksheet_block 0 (js ''<script>'') (js ''<table></table>''))
   \<and> escapeHtml (js ''<script>'') = js ''&lt;script&gt;''\<close>
proof -
  have "escapeHtml (js ''<script>'') = js ''&lt;script&gt;''"
    by (simp add: escapeHtml_def js_def)
  moreover have "parseLargeFile script_browser () (js ''xlsx'') 0 =
     [UpdateProgress 10, UpdateProgress 20, UpdateProgress 20, UpdateProgress 100,
      RenderContent
        (xlsx_header 1 @
         worksheet_block 0 (js ''<script>'') (js ''<table></table>'') @ js ''</div>'')]"
    by (simp add: parseLargeFile_def script_browser_def self_onmessage_def parseXlsx_def
        script_simps script_loop js_def)
  ultimately show ?thesis
    using sublist_worksheet_name by blast
qed

subsection \<open>The fallback on the main thread\<close>

lemma js_doc_types: "js ''pptx'' \<noteq> js ''xlsx''"
  by (simp add: js_def)

text \<open>
  The spreadsheet fallback suspends once per worksheet: between the progress update of
  a worksheet and its conversion.
\<close>

lemma fallback_xlsx_yields_per_worksheet:
  assumes "\<not> Worker_available B"
    and "XLSX_read (lib B) arrayBuffer = Inr wb"
    and "map (\<lambda>name. sheet_to_html (lib B) (Sheets wb name)) (SheetNames wb) = map Inr htmls"
  shows "parseLargeFile B arrayBuffer (js ''xlsx'') fileSize =
     [UpdateProgress 10, UpdateProgress 20] @
     concat (map (\<lambda>i. [UpdateProgress (sheet_progress i (length (SheetNames wb))), IdleYield])
               [0..<length (SheetNames wb)]) @
     [UpdateProgress 100,
      RenderContent
        (xlsx_header (length (SheetNames wb)) @
         concat (map (\<lambda>i. worksheet_block i (SheetNames wb ! i) (htmls ! i))
                   [0..<length (SheetNames wb)]) @
         js ''</div>'')]"
  using assms(1,2)
  by (simp add: parseLargeFile_def parseXlsxInChunks_def
      parseXlsxInChunks_loop_success [OF assms(3)])

text \<open>
  C4. Without a worker, a presentation request is to be converted on the main thread by
  a chunked routine that yields once per slide and delivers the HTML. The \<open>pptx\<close>
  case of \<open>parseLargeFile\<close> names \<open>parsePptxInChunks\<close>, which is defined nowhere:
  the request does nothing but report the \<open>ReferenceError\<close>. No slide is converted,
  nothing yields and no HTML is delivered.
\<close>

theorem fallback_pptx_not_converted:
  "\<not> Worker_available B \<Longrightarrow>
   parseLargeFile B arrayBuffer (js ''pptx'') fileSize =
     [ParsingError (ReferenceError_message B (js ''parsePptxInChunks''))]"
  by (simp add: parseLargeFile_def js_doc_types)

theorem fallback_pptx_not_converted_witness:
  "\<not> Worker_available without_worker
   \<and> parseLargeFile without_worker () (js ''pptx'') 0 =
       [ParsingError (js ''parsePptxInChunks is not defined'')]"
  using fallback_pptx_not_converted [of without_worker "()" 0]
  by (simp add: without_worker_def not_defined_def js_def)

subsection \<open>A worker that fails to start\<close>

lemma worker_error_literals:
  "worker_error (Excel_failed e)"
  "worker_error (PowerPoint_failed e)"
  "worker_error (unsupported_type t)"
  by (simp_all add: worker_error_def js_def unsupported_type_def Excel_failed_def
      PowerPoint_failed_def)

lemma self_onmessage_errors:
  "ErrorMsg m \<in> set (self_onmessage L type buf sz) \<Longrightarrow> worker_error m"
proof -
  assume m: "ErrorMsg m \<in> set (self_onmessage L type buf sz)"
  consider (xlsx) "type = js ''parse-xlsx''" | (pptx) "type \<noteq> js ''parse-xlsx''" "type = js ''parse-pptx''"
    | (other) "type \<noteq> js ''parse-xlsx''" "type \<noteq> js ''parse-pptx''" by blast
  then show ?thesis
  proof cases
    case xlsx
    show ?thesis
    proof (cases "XLSX_read L buf")
      case (Inl e)
      with xlsx m show ?thesis
        by (auto simp: self_onmessage_def parseXlsx_def worker_error_literals)
    next
      case (Inr wb)
      obtain ps where ps: "fst (parseXlsx_loop L wb 0 (xlsx_header (length (SheetNames wb)))
             [Progress 10, Progress 20]) = [Progress 10, Progress 20] @ map Progress ps"
        using parseXlsx_loop_posted
          [of L wb 0 "xlsx_header (length (SheetNames wb))" "[Progress 10, Progress 20]"]
        by blast
      show ?thesis
      proof (cases "snd (parseXlsx_loop L wb 0 (xlsx_header (length (SheetNames wb)))
             [Progress 10, Progress 20])")
        case (Inl e)
        with ps have "parseXlsx_loop L wb 0 (xlsx_header (length (SheetNames wb)))
             [Progress 10, Progress 20] = (map Progress (10 # 20 # ps), Inl e)"
          by (simp add: prod_eq_iff)
        with xlsx Inr m show ?thesis
          by (auto simp: self_onmessage_def parseXlsx_def worker_error_literals)
      next
        case (Inr html)
        with ps have "parseXlsx_loop L wb 0 (xlsx_header (length (SheetNames wb)))
             [Progress 10, Progress 20] = (map Progress (10 # 20 # ps), Inr html)"
          by (simp add: prod_eq_iff)
        with xlsx \<open>XLSX_read L buf = Inr wb\<close> m show ?thesis
          by (auto simp: self_onmessage_def parseXlsx_def)
      qed
    qed
  next
    case pptx
    with m show ?thesis
      by (cases "PptxParser_parse L buf")
         (auto simp: self_onmessage_def parsePptx_def worker_error_literals)
  next
    case other
    with m show ?thesis
      by (auto simp: self_onmessage_def worker_error_literals split: if_splits)
  qed
qed

lemma parse_failed_not_worker_error: "\<not> worker_error (parse_failed @ m)"
  by (simp add: worker_error_def parse_failed_def)

lemma worker_trace_errors:
  "ParsingError m \<in> set (concat (map worker_onmessage (self_onmessage L type buf sz)))
   \<Longrightarrow> worker_error m"
proof -
  assume "ParsingError m \<in> set (concat (map worker_onmessage (self_onmessage L type buf sz)))"
  then obtain x where x: "x \<in> set (self_onmessage L type buf sz)"
      "ParsingError m \<in> set (worker_onmessage x)" by auto
  from x(2) have "x = ErrorMsg m"
    by (cases x) (auto split: if_splits)
  with x(1) show ?thesis
    by (simp add: self_onmessage_errors)
qed

text \<open>
  C5, as stated: a failure of the worker itself is surfaced as an error of its own kind,
  "executor crashed", not as a parse error. The code has no such error:
  \<open>worker.onerror\<close> calls \<open>handleParsingError\<close>, as every parse error does, and words
  the failure as a parse failure. A worker that fails to start with the message
  \<open>boom\<close> is reported as "parse failed: boom"; a file that \<open>XLSX.read\<close> rejects in
  the worker with \<open>boom\<close> is reported by the same call as "Excel parse failed: boom".
\<close>

theorem crash_reported_like_parse_error:
  "parseLargeFile crashed_browser () (js ''xlsx'') 0 =
     [ParsingError ([0x89E3, 0x6790, 0x5931, 0x8D25] @ js '': boom'')]
   \<and> parseLargeFile rejecting_browser () (js ''xlsx'') 0 =
     [UpdateProgress 10,
      ParsingError (js ''Excel'' @ [0x89E3, 0x6790, 0x5931, 0x8D25] @ js '': boom'')]"
  by (simp add: parseLargeFile_def crashed_browser_def rejecting_browser_def rejecting_libs_def
      worker_onerror_def self_onmessage_def parseXlsx_def Excel_failed_def parse_failed_def
      js_def)

text \<open>
  C5, amended. When the worker script throws while loading, the request ends with one
  call of \<open>handleParsingError\<close>, the display used for parse errors, with the text
  "parse failed: " followed by the runtime's message, and does nothing else. This text
  differs from every error that a worker which did start reports.
\<close>

theorem crash_reported_as_parse_failure:
  assumes "Worker_available B"
  shows "(importScripts B = Some message \<longrightarrow>
            parseLargeFile B arrayBuffer docType fileSize =
              [ParsingError ([0x89E3, 0x6790, 0x5931, 0x8D25] @ js '': '' @ message)])
       \<and> (importScripts B = None \<longrightarrow>
            ParsingError ([0x89E3, 0x6790, 0x5931, 0x8D25] @ js '': '' @ message)
              \<notin> set (parseLargeFile B arrayBuffer docType fileSize))"
proof -
  have label: "[0x89E3, 0x6790, 0x5931, 0x8D25] @ js '': '' @ message = parse_failed @ message"
    by (simp add: parse_failed_def)
  show ?thesis
    unfolding label
    using assms worker_trace_errors [of "parse_failed @ message" "lib B"]
    by (auto simp: parseLargeFile_def worker_onerror_def parse_failed_not_worker_error)
qed

theorem crash_reported_as_parse_failure_witness:
  "Worker_available crashed_browser \<and> importScripts crashed_browser = Some (js ''boom'')
   \<and> parseLargeFile crashed_browser () (js ''xlsx'') 0 =
       [ParsingError ([0x89E3, 0x6790, 0x5931, 0x8D25] @ js '': boom'')]
   \<and> Worker_available rejecting_browser \<and> importScripts rejecting_browser = None
   \<and> ParsingError ([0x89E3, 0x6790, 0x5931, 0x8D25] @ js '': boom'')
       \<notin> set (parseLargeFile rejecting_browser () (js ''xlsx'') 0)"
  using crash_reported_as_parse_failure [of crashed_browser "js ''boom''" "()" "js ''xlsx''" 0]
    crash_reported_as_parse_failure [of rejecting_browser "js ''boom''" "()" "js ''xlsx''" 0]
  by (simp add: crashed_browser_def rejecting_browser_def js_def)

subsection \<open>The progress indicator\<close>

lemma unat_digit: "k < 10 \<Longrightarrow> unat (of_nat (48 + k) :: jschar) = 48 + k"
  unfolding unat_of_nat by simp

lemma digits_value_num: "digits_value (num n) = n"
proof (induction n rule: num.induct)
  case (1 n)
  show ?case
  proof (cases "n < 10")
    case True
    then show ?thesis
      by (subst num.simps) (simp add: digits_value_def unat_digit del: of_nat_add)
  next
    case False
    with 1 have "digits_value (num (n div 10)) = n div 10" by simp
    with False show ?thesis
      by (subst num.simps) (simp add: digits_value_def unat_digit del: of_nat_add)
  qed
qed

lemma num_inject: "num a = num b \<Longrightarrow> a = b"
  by (metis digits_value_num)

lemma num_not_minus: "num n \<noteq> 0x2D # s"
proof
  assume "num n = 0x2D # s"
  then have "is_digit 0x2D"
    using digits_num [of n] by simp
  then show False by simp
qed

lemma num_int_inject: "num_int a = num_int b \<Longrightarrow> a = b"
proof -
  assume eq: "num_int a = num_int b"
  consider (nn) "a < 0" "b < 0" | (np) "a < 0" "\<not> b < 0" | (pn) "\<not> a < 0" "b < 0"
    | (pp) "\<not> a < 0" "\<not> b < 0" by blast
  then show ?thesis
  proof cases
    case nn
    with eq have "nat (- a) = nat (- b)" by (simp add: num_int_def num_inject)
    with nn show ?thesis by simp
  next
    case np
    with eq num_not_minus [of "nat b" "num (nat (- a))"] show ?thesis
      by (simp add: num_int_def)
  next
    case pn
    with eq num_not_minus [of "nat a" "num (nat (- b))"] show ?thesis
      by (simp add: num_int_def)
  next
    case pp
    with eq have "nat a = nat b" by (simp add: num_int_def num_inject)
    with pp show ?thesis by simp
  qed
qed

text \<open>
  C7, as stated: \<open>updateProgressIndicator\<close> clamps the percentage into the range from 0
  to 100. It does not: 150 is shown as a width of \<open>150%\<close> and as the status text
  "parsing: 150%".
\<close>

theorem progress_not_clamped:
  "updateProgressIndicator 150 initial_indicator =
     \<lparr>progressBar = Some (js ''150%''),
      progressText = Some ([0x6B63, 0x5728, 0x89E3, 0x6790] @ js '': 150%'')\<rparr>"
  by (simp add: updateProgressIndicator_def initial_indicator_def parsing_label_def
      num_int_def num.simps js_def)

text \<open>
  C7, amended. When the page has both progress elements, \<open>updateProgressIndicator\<close>
  writes the percentage as it is, in decimal and without clamping, into the status
  text and, when it is not below 0, into the width of the bar (below 0 the bar keeps
  its width), so that different percentages always give different texts and, from 0
  on, different widths. When an element is missing it changes nothing. It does nothing
  else.
\<close>

theorem progress_shown_unclamped:
  "(progressBar d = Some w \<and> progressText d = Some t \<longrightarrow>
      updateProgressIndicator percent d =
        d\<lparr>progressBar := Some (if percent < 0 then w else num_int percent @ js ''%''),
          progressText :=
            Some ([0x6B63, 0x5728, 0x89E3, 0x6790] @ js '': '' @ num_int percent @ js ''%'')\<rparr>
      \<and> (\<forall>q. progressText (updateProgressIndicator q d) =
                 progressText (updateProgressIndicator percent d) \<longrightarrow> q = percent)
      \<and> (\<forall>q. 0 \<le> q \<and> 0 \<le> percent \<and>
               progressBar (updateProgressIndicator q d) =
                 progressBar (updateProgressIndicator percent d) \<longrightarrow> q = percent))
   \<and> (progressBar d = None \<or> progressText d = None \<longrightarrow>
        updateProgressIndicator percent d = d)"
proof -
  have "updateProgressIndicator percent d = d" if "progressBar d = None \<or> progressText d = None"
    using that by (auto simp: updateProgressIndicator_def split: option.splits)
  moreover have "updateProgressIndicator q d =
        d\<lparr>progressBar := Some (if q < 0 then w else num_int q @ js ''%''),
          progressText :=
            Some ([0x6B63, 0x5728, 0x89E3, 0x6790] @ js '': '' @ num_int q @ js ''%'')\<rparr>"
    if "progressBar d = Some w" "progressText d = Some t" for q
    using that by (simp add: updateProgressIndicator_def parsing_label_def)
  ultimately show ?thesis
    by (auto dest: num_int_inject)
qed

theorem progress_shown_unclamped_witness:
  "progressBar initial_indicator = Some (js ''0%'')
   \<and> progressText initial_indicator = Some ([0x51C6, 0x5907, 0x89E3, 0x6790] @ js ''...'')
   \<and> updateProgressIndicator 150 initial_indicator =
       \<lparr>progressBar = Some (js ''150%''),
        progressText = Some ([0x6B63, 0x5728, 0x89E3, 0x6790] @ js '': 150%'')\<rparr>
   \<and> updateProgressIndicator (- 5) initial_indicator =
       \<lparr>progressBar = Some (js ''0%''),
        progressText = Some ([0x6B63, 0x5728, 0x89E3, 0x6790] @ js '': -5%'')\<rparr>
   \<and> progressBar (updateProgressIndicator 100 initial_indicator) \<noteq>
       progressBar (updateProgressIndicator 150 initial_indicator)
   \<and> progressBar no_indicator = None
   \<and> updateProgressIndicator 150 no_indicator = no_indicator"
proof -
  have b: "progressBar initial_indicator = Some (js ''0%'')"
    and t: "progressText initial_indicator = Some ([0x51C6, 0x5907, 0x89E3, 0x6790] @ js ''...'')"
    and n: "progressBar no_indicator = None"
    by (simp_all add: initial_indicator_def no_indicator_def)
  note at_150 = progress_shown_unclamped [of initial_indicator "js ''0%''"
      "[0x51C6, 0x5907, 0x89E3, 0x6790] @ js ''...''" 150]
  note at_minus_5 = progress_shown_unclamped [of initial_indicator "js ''0%''"
      "[0x51C6, 0x5907, 0x89E3, 0x6790] @ js ''...''" "- 5"]
  note missing = progress_shown_unclamped [of no_indicator w t 150]
  from at_150 b t have "updateProgressIndicator 150 initial_indicator =
       \<lparr>progressBar = Some (js ''150%''),
        progressText = Some ([0x6B63, 0x5728, 0x89E3, 0x6790] @ js '': 150%'')\<rparr>"
    by (simp add: initial_indicator_def num_int_def num.simps js_def)
  moreover from at_minus_5 b t have "updateProgressIndicator (- 5) initial_indicator =
       \<lparr>progressBar = Some (js ''0%''),
        progressText = Some ([0x6B63, 0x5728, 0x89E3, 0x6790] @ js '': -5%'')\<rparr>"
    by (simp add: initial_indicator_def num_int_def num.simps js_def)
  moreover have "progressBar (updateProgressIndicator 100 initial_indicator) \<noteq>
       progressBar (updateProgressIndicator 150 initial_indicator)"
  proof
    assume same: "progressBar (updateProgressIndicator 100 initial_indicator) =
       progressBar (updateProgressIndicator 150 initial_indicator)"
    from at_150 b t
    have "\<forall>q. 0 \<le> q \<and> 0 \<le> (150::int) \<and>
               progressBar (updateProgressIndicator q initial_indicator) =
                 progressBar (updateProgressIndicator 150 initial_indicator) \<longrightarrow> q = 150"
      by blast
    from this [rule_format, of 100] same show False
      by simp
  qed
  moreover from missing n have "updateProgressIndicator 150 no_indicator = no_indicator"
    by simp
  ultimately show ?thesis
    using b t n by simp
qed

subsection \<open>The virtual scroller\<close>

lemma length_clone_range:
  "length (clone_range allElements i endIndex fragment) = length fragment + nat (endIndex - i)"
proof (induction allElements i endIndex fragment rule: clone_range.induct)
  case (1 allElements i endIndex fragment)
  show ?case
  proof (cases "i < endIndex")
    case True
    with 1 show ?thesis
      by (subst clone_range.simps) simp
  next
    case False
    then show ?thesis
      by (subst clone_range.simps) simp
  qed
qed

lemma clone_range_eq:
  "0 \<le> i \<Longrightarrow> endIndex \<le> int (length allElements) \<Longrightarrow>
   clone_range allElements i endIndex fragment =
     fragment @ take (nat (endIndex - i)) (drop (nat i) allElements)"
proof (induction allElements i endIndex fragment rule: clone_range.induct)
  case (1 allElements i endIndex fragment)
  show ?case
  proof (cases "i < endIndex")
    case True
    with "1.prems" have lt: "nat i < length allElements" by linarith
    from True have n: "nat (endIndex - i) = Suc (nat (endIndex - (i + 1)))" by linarith
    from "1.prems" have s: "nat (i + 1) = Suc (nat i)" by linarith
    from True "1.IH" "1.prems"
    have "clone_range allElements (i + 1) endIndex (fragment @ [allElements ! nat i]) =
        (fragment @ [allElements ! nat i]) @
          take (nat (endIndex - (i + 1))) (drop (nat (i + 1)) allElements)"
      by simp
    with True lt show ?thesis
      by (subst clone_range.simps) (simp add: n s Cons_nth_drop_Suc [symmetric])
  next
    case False
    then show ?thesis
      by (subst clone_range.simps) simp
  qed
qed

lemma index_range_width:
  "visible_end viewportHeight scrollTop - visible_start scrollTop
     \<le> \<lceil>(of_int viewportHeight + 2 * buffer) / 10\<rceil> + 1"
proof -
  let ?a = "(scrollTop + of_int viewportHeight + buffer) / 10"
  let ?b = "(scrollTop - buffer) / 10"
  have "?a = ?b + (of_int viewportHeight + 2 * buffer) / 10"
    by (simp add: field_simps)
  then have "\<lceil>?a\<rceil> \<le> \<lceil>?b\<rceil> + \<lceil>(of_int viewportHeight + 2 * buffer) / 10\<rceil>"
    by (metis ceiling_add_le)
  moreover have "\<lceil>?b\<rceil> \<le> \<lfloor>?b\<rfloor> + 1"
    using ceiling_diff_floor_le_1 [of ?b] by linarith
  moreover have "\<lfloor>?b\<rfloor> \<le> visible_start scrollTop"
    by (simp add: visible_start_def)
  ultimately show ?thesis
    by (simp add: visible_end_def)
qed

lemma rendered_slice:
  "visible_start scrollTop \<noteq> currentStart S \<Longrightarrow>
   scroll_container (renderVisibleContent allElements viewportHeight scrollTop S) =
     drop (nat (visible_start scrollTop))
       (take (nat (visible_end viewportHeight scrollTop)) allElements)"
proof -
  assume new: "visible_start scrollTop \<noteq> currentStart S"
  let ?n = "int (length allElements)"
  let ?s = "visible_start scrollTop"
  let ?e = "visible_end viewportHeight scrollTop"
  have s0: "0 \<le> ?s" by (simp add: visible_start_def)
  have "clone_range allElements (min ?s ?n) (min ?e ?n) [] =
      take (nat (min ?e ?n - min ?s ?n)) (drop (nat (min ?s ?n)) allElements)"
    using s0 by (simp add: clone_range_eq)
  also have "\<dots> = drop (nat ?s) (take (nat ?e) allElements)"
  proof (cases "?s \<le> ?n")
    case True
    then have "min ?s ?n = ?s" by simp
    moreover have "nat (min ?e ?n - ?s) = min (nat ?e) (length allElements) - nat ?s"
      using s0 by linarith
    moreover have "take (min (nat ?e) (length allElements) - nat ?s) (drop (nat ?s) allElements) =
        take (nat ?e - nat ?s) (drop (nat ?s) allElements)"
      by (cases "nat ?e \<le> length allElements") (simp_all add: min_def)
    ultimately show ?thesis
      by (simp add: drop_take)
  next
    case False
    then show ?thesis by simp
  qed
  finally show ?thesis
    using new by (simp add: renderVisibleContent_def)
qed

lemma rendered_slice_length:
  "length (scroll_container (renderVisibleContent allElements viewportHeight scrollTop S))
     \<le> max (length (scroll_container S)) (slice_bound viewportHeight)"
proof (cases "visible_start scrollTop = currentStart S")
  case True
  then show ?thesis by (simp add: renderVisibleContent_def)
next
  case False
  let ?n = "int (length allElements)"
  have "min (visible_end viewportHeight scrollTop) ?n - min (visible_start scrollTop) ?n
      \<le> max 0 (visible_end viewportHeight scrollTop - visible_start scrollTop)"
    by linarith
  with index_range_width [of viewportHeight scrollTop]
  have "nat (min (visible_end viewportHeight scrollTop) ?n - min (visible_start scrollTop) ?n)
      \<le> slice_bound viewportHeight"
    unfolding slice_bound_def by linarith
  with False show ?thesis
    by (simp add: renderVisibleContent_def length_clone_range)
qed

lemma frames_slice_length:
  "length (scroll_container S) \<le> slice_bound viewportHeight \<Longrightarrow>
   length (scroll_container (frames allElements viewportHeight scrollTops S))
     \<le> slice_bound viewportHeight"
proof (induction scrollTops arbitrary: S)
  case Nil
  then show ?case by (simp add: frames_def)
next
  case (Cons s scrollTops)
  from Cons.prems rendered_slice_length [of allElements viewportHeight s S]
  have "length (scroll_container (renderVisibleContent allElements viewportHeight s S))
      \<le> slice_bound viewportHeight" by simp
  from Cons.IH [OF this] show ?case
    by (simp add: frames_def)
qed

lemma visible_start_0 [simp]: "visible_start 0 = 0"
  by (simp add: visible_start_def buffer_def)

lemma enableVirtualScrolling_eq:
  "enableVirtualScrolling D html =
     \<lparr>placeholder_height = offsetHeight D html, currentStart = 0,
      scroll_container = [], translateY = None\<rparr>"
  by (simp add: enableVirtualScrolling_def renderVisibleContent_def)

lemma frames_at_start:
  "list_all (\<lambda>s. visible_start s = currentStart S) scrollTops \<Longrightarrow>
   frames allElements viewportHeight scrollTops S = S"
  by (induction scrollTops) (simp_all add: frames_def renderVisibleContent_def)

lemma big_html_length: "500000 < length big_html"
  by (simp add: big_html_def)

lemma floor_rat_numeral: "\<lfloor>numeral a / numeral b :: rat\<rfloor> = numeral a div numeral b"
  by (metis floor_divide_of_int_eq of_int_numeral)

lemma ceiling_rat_numeral: "\<lceil>numeral a / numeral b :: rat\<rceil> = - (- numeral a div numeral b)"
  using ceiling_divide_eq_div [of "numeral a" "numeral b", where ?'a = rat] by simp

lemma visible_values:
  "visible_start 215 = 1" "visible_end 100 215 = 52"
  "visible_start 2250 = 205" "visible_start 4500 = 430"
  "visible_start 100 = 0" "visible_start 209 = 0"
  "visible_end 500 0 = 70" "visible_end 500 209 = 91"
  by (simp_all add: visible_start_def visible_end_def buffer_def floor_rat_numeral
      ceiling_rat_numeral)

lemma visible_values_back:
  "visible_start 500 = 30" "visible_end 500 0 = 70" "visible_end 500 500 = 120"
  "visible_end 100 0 = 30" "visible_end 100 209 = 51"
  by (simp_all add: visible_start_def visible_end_def buffer_def floor_rat_numeral
      ceiling_rat_numeral)

lemma hundred_paragraphs_length: "500000 < length hundred_paragraphs"
  by (simp add: hundred_paragraphs_def long_paragraph_def length_concat sum_list_replicate)

lemma paragraphs_simps:
  "children paragraphs hundred_paragraphs = replicate 100 long_paragraph"
  "clientHeight paragraphs = 100"
  "offsetHeight paragraphs html = 1800"
  by (simp_all add: paragraphs_def)

lemma paragraphs_at_215:
  "scroll_container
     (frames (replicate 100 long_paragraph) 100 [215]
        (enableVirtualScrolling paragraphs hundred_paragraphs)) =
   replicate 51 long_paragraph"
proof -
  have "scroll_container (renderVisibleContent (replicate 100 long_paragraph) 100 215
        \<lparr>placeholder_height = 1800, currentStart = 0, scroll_container = [],
         translateY = None\<rparr>) =
      drop (nat (visible_start 215))
        (take (nat (visible_end 100 215)) (replicate 100 long_paragraph))"
    by (rule rendered_slice) (simp add: visible_values)
  then show ?thesis
    by (simp add: frames_def enableVirtualScrolling_eq paragraphs_simps visible_values)
qed

text \<open>
  C8, as stated: for a payload above 500000 characters the rendered slice never holds
  more nodes than (viewport height + 2 * buffer) / 10. It can hold one more, since the
  start index is rounded down and the end index up: of 100 paragraphs in a viewport of
  100, at the scroll offset 215 the slice holds the 51 paragraphs with the indices 1 to
  51, against (100 + 2 * 200) / 10 = 50.
\<close>

theorem windowed_slice_exceeds_quotient:
  "500000 < length hundred_paragraphs
   \<and> renderParsedContent paragraphs hundred_paragraphs =
       Virtual (enableVirtualScrolling paragraphs hundred_paragraphs)
   \<and> length (children paragraphs hundred_paragraphs) = 100
   \<and> length (scroll_container
         (frames (children paragraphs hundred_paragraphs) (clientHeight paragraphs) [215]
            (enableVirtualScrolling paragraphs hundred_paragraphs))) = 51
   \<and> (of_int (clientHeight paragraphs) + 2 * 200) / 10 = (50::rat)"
  using hundred_paragraphs_length
  by (simp add: renderParsedContent_def paragraphs_at_215 paragraphs_simps)

text \<open>
  C8, amended. For every payload above 500000 characters and every sequence of scroll
  offsets, the rendered slice never holds more than
  \<open>\<lceil>(viewport height + 2 * 200) / 10\<rceil> + 1\<close> nodes.
\<close>

theorem windowed_slice_bounded:
  assumes "500000 < length html"
  shows "renderParsedContent D html = Virtual (enableVirtualScrolling D html)
    \<and> length (scroll_container
          (frames (children D html) (clientHeight D) scrollTops (enableVirtualScrolling D html)))
        \<le> nat (\<lceil>(of_int (clientHeight D) + 2 * 200) / (10::rat)\<rceil> + 1)"
proof -
  have "length (scroll_container (enableVirtualScrolling D html)) \<le> slice_bound (clientHeight D)"
    by (simp add: enableVirtualScrolling_eq)
  from frames_slice_length [OF this, of "children D html" scrollTops] assms show ?thesis
    by (simp add: renderParsedContent_def slice_bound_def buffer_def)
qed

theorem windowed_slice_bounded_witness:
  "500000 < length hundred_paragraphs
   \<and> renderParsedContent paragraphs hundred_paragraphs =
       Virtual (enableVirtualScrolling paragraphs hundred_paragraphs)
   \<and> length (scroll_container
         (frames (children paragraphs hundred_paragraphs) (clientHeight paragraphs) [215]
            (enableVirtualScrolling paragraphs hundred_paragraphs))) = 51
   \<and> nat (\<lceil>(of_int (clientHeight paragraphs) + 2 * 200) / (10::rat)\<rceil> + 1) = 51"
  using windowed_slice_bounded [OF hundred_paragraphs_length, of paragraphs "[215]"]
    hundred_paragraphs_length
  by (simp add: paragraphs_at_215 paragraphs_simps)

text \<open>
  C10, as stated: no slice is rendered at any scroll offset whose start index is 0. After
  the start index has been different, it is: scrolled to offset 500 and back to 0, the
  frame at offset 0 renders the slice.
\<close>

theorem rendered_at_start_index_0:
  "visible_start 0 = 0
   \<and> frames (children one_div big_html) (clientHeight one_div) [500, 0]
        (enableVirtualScrolling one_div big_html) =
      \<lparr>placeholder_height = 5000, currentStart = 0, scroll_container = [big_html],
       translateY = Some 0\<rparr>"
  by (simp add: frames_def enableVirtualScrolling_eq one_div_def renderVisibleContent_def
      visible_values_back clone_range.simps)

text \<open>
  C10, amended. A frame renders a slice only when the start index it computes differs
  from \<open>currentStart\<close>, which is 0 at first; otherwise it changes nothing, whatever
  the end index is, so that a frame whose start index equals that of the frame before
  it never renders. Consequently, as long as every scroll offset so far, the initial
  offset 0 included, has the start index 0, no slice is rendered.
\<close>

theorem rerender_only_on_new_start:
  "(visible_start scrollTop = currentStart S \<longrightarrow>
      renderVisibleContent allElements viewportHeight scrollTop S = S)
   \<and> (visible_start scrollTop \<noteq> currentStart S \<longrightarrow>
        renderVisibleContent allElements viewportHeight scrollTop S =
          S\<lparr>currentStart := visible_start scrollTop,
            scroll_container :=
              drop (nat (visible_start scrollTop))
                (take (nat (visible_end viewportHeight scrollTop)) allElements),
            translateY := Some (visible_start scrollTop * 10)\<rparr>)
   \<and> (visible_start scrollTop' = visible_start scrollTop \<longrightarrow>
        renderVisibleContent allElements viewportHeight scrollTop'
          (renderVisibleContent allElements viewportHeight scrollTop S) =
        renderVisibleContent allElements viewportHeight scrollTop S)
   \<and> currentStart (enableVirtualScrolling D html) = 0
   \<and> scroll_container (enableVirtualScrolling D html) = []
   \<and> (list_all (\<lambda>s. visible_start s = 0) scrollTops \<longrightarrow>
        frames (children D html) (clientHeight D) scrollTops (enableVirtualScrolling D html) =
          enableVirtualScrolling D html)"
proof -
  have "visible_start scrollTop \<noteq> currentStart S \<Longrightarrow>
      renderVisibleContent allElements viewportHeight scrollTop S =
          S\<lparr>currentStart := visible_start scrollTop,
            scroll_container :=
              drop (nat (visible_start scrollTop))
                (take (nat (visible_end viewportHeight scrollTop)) allElements),
            translateY := Some (visible_start scrollTop * 10)\<rparr>"
    using rendered_slice [of scrollTop S allElements viewportHeight]
    by (simp add: renderVisibleContent_def)
  moreover have "visible_start scrollTop' = visible_start scrollTop \<Longrightarrow>
        renderVisibleContent allElements viewportHeight scrollTop'
          (renderVisibleContent allElements viewportHeight scrollTop S) =
        renderVisibleContent allElements viewportHeight scrollTop S"
    by (simp add: renderVisibleContent_def)
  moreover have "list_all (\<lambda>s. visible_start s = 0) scrollTops \<Longrightarrow>
        frames (children D html) (clientHeight D) scrollTops (enableVirtualScrolling D html) =
          enableVirtualScrolling D html"
    using frames_at_start [of "enableVirtualScrolling D html" scrollTops]
    by (simp add: enableVirtualScrolling_eq)
  ultimately show ?thesis
    by (simp add: enableVirtualScrolling_eq renderVisibleContent_def)
qed

theorem rerender_only_on_new_start_witness:
  "list_all (\<lambda>s. visible_start s = 0) [0, 100, 209]
   \<and> frames (children rows big_html) (clientHeight rows) [0, 100, 209]
        (enableVirtualScrolling rows big_html) =
      \<lparr>placeholder_height = 1000, currentStart = 0, scroll_container = [], translateY = None\<rparr>
   \<and> visible_end (clientHeight rows) 0 \<noteq> visible_end (clientHeight rows) 209
   \<and> visible_start 215 \<noteq> currentStart (enableVirtualScrolling rows big_html)
   \<and> renderVisibleContent (children rows big_html) (clientHeight rows) 215
        (enableVirtualScrolling rows big_html) =
      \<lparr>placeholder_height = 1000, currentStart = 1, scroll_container = [1..<52],
       translateY = Some 10\<rparr>"
proof -
  have z: "list_all (\<lambda>s. visible_start s = 0) [0, 100, 209]"
    by (simp add: visible_values)
  have "drop (nat (visible_start 215)) (take (nat (visible_end 100 215)) [0..<100]) = [1..<52]"
    by (simp add: visible_values)
  with z rerender_only_on_new_start [of 215 "enableVirtualScrolling rows big_html"
      "children rows big_html" "clientHeight rows" 215 rows big_html "[0, 100, 209]"]
  show ?thesis
    by (simp add: enableVirtualScrolling_eq rows_def visible_values visible_values_back)
qed

end
